theory Spec2Isabelle
  imports Complex_Main
begin

section \<open>Values, tensors and errors\<close>

text \<open>
  The program is \<^verbatim>\<open>train.py\<close>: a MoCo-style contrastive training loop written with PyTorch.
  Floating-point tensors are idealised as lists of reals (no rounding, no \<^verbatim>\<open>nan\<close>, no
  \<^verbatim>\<open>inf\<close>); integer index tensors are lists of naturals. An exception raised by Python or by
  the tensor library is a value of type \<open>error\<close>, and a computation that may raise returns
  \<open>error + 'a\<close> with \<open>Inl\<close> for the exception.
\<close>

datatype error = ZeroDivisionError | IndexError | RuntimeError

definition bind_err :: "error + 'a \<Rightarrow> ('a \<Rightarrow> error + 'b) \<Rightarrow> error + 'b" where
  "bind_err m f = (case m of Inl e \<Rightarrow> Inl e | Inr x \<Rightarrow> f x)"

text \<open>
  A two-dimensional float tensor: its number of columns and its rows. The column count is
  kept apart from the rows so that a tensor of shape \<open>(0, D)\<close>, such as the empty queue of
  line 31, still has its \<open>D\<close>.
\<close>

datatype tensor = Tensor (ncols: nat) (rows: "real list list")

definition shape0 :: "tensor \<Rightarrow> nat" where
  "shape0 t = length (rows t)"

definition wf_tensor :: "tensor \<Rightarrow> bool" where
  "wf_tensor t \<longleftrightarrow> list_all (\<lambda>r. length r = ncols t) (rows t)"

section \<open>Shuffle indices (\<^verbatim>\<open>get_shuffle_idx\<close>, lines 19-25)\<close>

text \<open>
  \<^verbatim>\<open>torch.randperm(n)\<close> draws a permutation of \<open>0, ..., n-1\<close>. The draw is an explicit
  argument of the model; \<open>is_randperm n p\<close> says that \<open>p\<close> is a possible draw.
\<close>

definition is_randperm :: "nat \<Rightarrow> nat list \<Rightarrow> bool" where
  "is_randperm n p \<longleftrightarrow> length p = n \<and> distinct p \<and> list_all (\<lambda>i. i < n) p"

text \<open>
  \<^verbatim>\<open>self.index_copy_(0, index, source)\<close>: for every position \<open>j\<close> of \<open>index\<close>, in order,
  \<^verbatim>\<open>self[index[j]] = source[j]\<close>. The library raises when \<open>index\<close> and \<open>source\<close> differ in
  length and when an index is outside \<open>self\<close>.
\<close>

fun index_copy :: "nat list \<Rightarrow> nat list \<Rightarrow> nat list \<Rightarrow> error + nat list" where
  "index_copy self [] [] = Inr self"
| "index_copy self (i # idx) (v # src) =
     (if i < length self then index_copy (self[i := v]) idx src else Inl IndexError)"
| "index_copy self _ _ = Inl IndexError"

definition get_shuffle_idx :: "nat \<Rightarrow> nat list \<Rightarrow> error + (nat list \<times> nat list)" where
  "get_shuffle_idx num_data shuffle_value =
     (let reverse_idx = replicate num_data 0;
          arrange_index = [0..<num_data]
      in bind_err (index_copy reverse_idx shuffle_value arrange_index)
           (\<lambda>reverse_idx. Inr (shuffle_value, reverse_idx)))"

text \<open>
  Indexing along the first dimension by an index tensor, \<^verbatim>\<open>x[idx]\<close> (lines 41 and 43): the
  result has one entry per index; an index outside \<open>x\<close> raises.
\<close>

definition index_select :: "'a list \<Rightarrow> nat list \<Rightarrow> error + 'a list" where
  "index_select x idx =
     (if list_all (\<lambda>i. i < length x) idx then Inr (map (\<lambda>i. x ! i) idx) else Inl IndexError)"

section \<open>Tensor operations used by the training step\<close>

text \<open>
  The operations of the tensor library that \<^verbatim>\<open>train\<close> calls, on contiguous tensors, each
  with the shape check under which the library raises. A three-dimensional tensor (the
  operands and the result of \<^verbatim>\<open>torch.bmm\<close>) is a list of two-dimensional ones, one per
  batch entry.
\<close>

definition zeros :: "int \<Rightarrow> int \<Rightarrow> error + tensor" where
  \<comment> \<open>\<^verbatim>\<open>torch.zeros((r, c))\<close>; a negative dimension raises\<close>
  "zeros r c =
     (if r < 0 \<or> c < 0 then Inl RuntimeError
      else Inr (Tensor (nat c) (replicate (nat r) (replicate (nat c) 0))))"

fun chunk :: "nat \<Rightarrow> nat \<Rightarrow> 'a list \<Rightarrow> 'a list list" where
  \<comment> \<open>the first \<open>n\<close> consecutive pieces of length \<open>m\<close> of a flat buffer\<close>
  "chunk 0 m xs = []"
| "chunk (Suc n) m xs = take m xs # chunk n m (drop m xs)"

definition view_N_1_x :: "nat \<Rightarrow> tensor \<Rightarrow> error + tensor list" where
  \<comment> \<open>\<^verbatim>\<open>a.view(N, 1, -1)\<close>: the flat buffer cut into \<open>N\<close> matrices of one row each\<close>
  "view_N_1_x N a =
     (let flat = concat (rows a) in
      if N = 0 \<or> length flat mod N \<noteq> 0 then Inl RuntimeError
      else Inr (map (\<lambda>c. Tensor (length flat div N) [c]) (chunk N (length flat div N) flat)))"

definition view_N_x_1 :: "nat \<Rightarrow> tensor \<Rightarrow> error + tensor list" where
  \<comment> \<open>\<^verbatim>\<open>a.view(N, -1, 1)\<close>: the flat buffer cut into \<open>N\<close> matrices of one column each\<close>
  "view_N_x_1 N a =
     (let flat = concat (rows a) in
      if N = 0 \<or> length flat mod N \<noteq> 0 then Inl RuntimeError
      else Inr (map (\<lambda>c. Tensor 1 (map (\<lambda>x. [x]) c)) (chunk N (length flat div N) flat)))"

definition view_N_1 :: "nat \<Rightarrow> tensor list \<Rightarrow> error + tensor" where
  \<comment> \<open>\<^verbatim>\<open>a.view(N, 1)\<close> of a three-dimensional tensor: it must hold exactly \<open>N\<close> numbers\<close>
  "view_N_1 N a =
     (let flat = concat (map (\<lambda>m. concat (rows m)) a) in
      if length flat \<noteq> N then Inl RuntimeError
      else Inr (Tensor 1 (map (\<lambda>x. [x]) flat)))"

definition matmul :: "tensor \<Rightarrow> tensor \<Rightarrow> tensor" where
  \<comment> \<open>the matrix product, entry \<open>(i, j)\<close> being the sum over \<open>l\<close> of \<open>a[i][l] * b[l][j]\<close>\<close>
  "matmul a b =
     Tensor (ncols b)
       (map (\<lambda>r. map (\<lambda>j. sum_list (map (\<lambda>l. r ! l * (rows b ! l) ! j) [0..<ncols a]))
                   [0..<ncols b])
            (rows a))"

definition mm :: "tensor \<Rightarrow> tensor \<Rightarrow> error + tensor" where
  \<comment> \<open>\<^verbatim>\<open>torch.mm(a, b)\<close>: the columns of \<open>a\<close> must be as many as the rows of \<open>b\<close>\<close>
  "mm a b = (if ncols a = length (rows b) then Inr (matmul a b) else Inl RuntimeError)"

definition bmm :: "tensor list \<Rightarrow> tensor list \<Rightarrow> error + tensor list" where
  \<comment> \<open>\<^verbatim>\<open>torch.bmm(a, b)\<close>: equal batch sizes, and matching inner dimensions in every entry\<close>
  "bmm a b =
     (if length a = length b \<and> list_all (\<lambda>(x, y). ncols x = length (rows y)) (zip a b)
      then Inr (map (\<lambda>(x, y). matmul x y) (zip a b)) else Inl RuntimeError)"

definition tensor_t :: "tensor \<Rightarrow> tensor" where
  \<comment> \<open>\<^verbatim>\<open>a.t().contiguous()\<close>: the transposed matrix\<close>
  "tensor_t a =
     Tensor (length (rows a)) (map (\<lambda>j. map (\<lambda>r. r ! j) (rows a)) [0..<ncols a])"

definition cat_last :: "tensor \<Rightarrow> tensor \<Rightarrow> error + tensor" where
  \<comment> \<open>\<^verbatim>\<open>torch.cat([a, b], dim=-1)\<close>: row \<open>i\<close> of \<open>a\<close> followed by row \<open>i\<close> of \<open>b\<close>\<close>
  "cat_last a b =
     (if length (rows a) = length (rows b)
      then Inr (Tensor (ncols a + ncols b) (map (\<lambda>(x, y). x @ y) (zip (rows a) (rows b))))
      else Inl RuntimeError)"

definition div_scalar :: "tensor \<Rightarrow> real \<Rightarrow> tensor" where
  \<comment> \<open>\<^verbatim>\<open>a / c\<close> for a number \<open>c\<close>: every entry divided by \<open>c\<close>\<close>
  "div_scalar a c = Tensor (ncols a) (map (map (\<lambda>x. x / c)) (rows a))"

definition index_rows :: "tensor \<Rightarrow> nat list \<Rightarrow> error + tensor" where
  \<comment> \<open>\<^verbatim>\<open>a[idx]\<close> on a two-dimensional tensor: the rows named by \<open>idx\<close>, in that order\<close>
  "index_rows a idx = bind_err (index_select (rows a) idx) (\<lambda>r. Inr (Tensor (ncols a) r))"

definition cross_entropy_loss :: "tensor \<Rightarrow> nat list \<Rightarrow> error + real" where
  \<comment> \<open>\<^verbatim>\<open>nn.CrossEntropyLoss()\<close> (line 125) with the library's default reduction, the mean:
      per row the negated logarithm of the softmax entry of the target class\<close>
  "cross_entropy_loss input target =
     (if length target \<noteq> length (rows input) \<or> \<not> list_all (\<lambda>c. c < ncols input) target
      then Inl RuntimeError
      else Inr (sum_list (map (\<lambda>(x, c). - ln (exp (x ! c) / sum_list (map exp x)))
                              (zip (rows input) target))
                / real (length (rows input))))"

section \<open>The dictionary and the momentum update (\<^verbatim>\<open>utils\<close>)\<close>

text \<open>
  \<^verbatim>\<open>utils.queue_data\<close>, \<^verbatim>\<open>utils.dequeue_data\<close> and \<^verbatim>\<open>utils.momentum_update\<close> are called by
  \<^verbatim>\<open>train.py\<close> but defined in a module that is not part of the sources at hand.
\<close>

definition queue_data :: "tensor \<Rightarrow> tensor \<Rightarrow> tensor" where
  \<comment> \<open>Modelled from the spec: \<^verbatim>\<open>utils.queue_data\<close> is missing; \<^verbatim>\<open>enqueue(batch)\<close> "appends a
      batch of embedding vectors to the end of the sequence".\<close>
  "queue_data data k = Tensor (ncols data) (rows data @ rows k)"

fun evict_to_capacity :: "'a list \<Rightarrow> int \<Rightarrow> 'a list" where
  \<comment> \<open>Modelled from the spec: "if sequence length > capacity, removes entries from the front
      until length == capacity". The spec says nothing about a capacity below zero; the
      loop written here then stops at the empty sequence.\<close>
  "evict_to_capacity [] capacity = []"
| "evict_to_capacity (x # xs) capacity =
     (if int (length (x # xs)) > capacity then evict_to_capacity xs capacity else x # xs)"

definition dequeue_data :: "tensor \<Rightarrow> int \<Rightarrow> tensor" where
  \<comment> \<open>Modelled from the spec: \<^verbatim>\<open>utils.dequeue_data\<close> is missing; it is the spec's
      \<^verbatim>\<open>evict_to_capacity(capacity)\<close> on the rows of the queue.\<close>
  "dequeue_data data K = Tensor (ncols data) (evict_to_capacity (rows data) K)"

definition momentum_update :: "real list \<Rightarrow> real list \<Rightarrow> real \<Rightarrow> real list" where
  \<comment> \<open>Modelled from the spec: \<^verbatim>\<open>utils.momentum_update\<close> is missing; "update each key parameter
      in place: \<open>\<theta>_k \<leftarrow> \<beta>\<cdot>\<theta>_k + (1-\<beta>)\<cdot>\<theta>_q\<close>", parameter by parameter. The result is the
      new parameter list of the key encoder.\<close>
  "momentum_update model_q model_k beta =
     map (\<lambda>(k, q). beta * k + (1 - beta) * q) (zip model_k model_q)"

section \<open>The training state and the external collaborators\<close>

text \<open>
  The encoder class \<^verbatim>\<open>Net\<close>, automatic differentiation and the optimizer are outside the
  sources at hand; they are parameters of the model. An encoder is its list of parameter
  values; its forward pass is a function of these values and of the whole batch (batch
  normalisation couples the rows of a batch). The input batch is a list of images of an
  arbitrary type \<open>'x\<close>; \<open>'o\<close> is the state of the optimizer.
\<close>

record ('x, 'o) collab =
  Net_forward :: "real list \<Rightarrow> 'x list \<Rightarrow> tensor"
  loss_backward :: "real list \<Rightarrow> 'x list \<Rightarrow> tensor \<Rightarrow> tensor \<Rightarrow> real \<Rightarrow> real list"
  optimizer_step :: "'o \<Rightarrow> real list \<Rightarrow> real list \<Rightarrow> 'o \<times> real list"
  momentum_beta :: real
  lr_scheduler_step :: "nat \<Rightarrow> 'o \<Rightarrow> 'o"

text \<open>
  \<open>Net_forward ext \<theta> x\<close> is \<^verbatim>\<open>model(x)\<close> for an encoder with parameters \<open>\<theta>\<close>;
  \<open>loss_backward ext \<theta> x_q k queue temp\<close> is the gradient that \<^verbatim>\<open>loss.backward()\<close> leaves
  on the parameters of the query encoder (the key batch and the queue are detached);
  \<open>optimizer_step ext o g \<theta>\<close> is \<^verbatim>\<open>optimizer.step()\<close> on gradient \<open>g\<close>;
  \<open>momentum_beta ext\<close> is the default \<^verbatim>\<open>beta\<close> of \<^verbatim>\<open>utils.momentum_update\<close>;
  \<open>lr_scheduler_step ext epoch\<close> is \<^verbatim>\<open>lr_scheduler.step(epoch)\<close>.
\<close>

text \<open>The values read from the command line (lines 102-109); \<^verbatim>\<open>type=int\<close> admits every integer.\<close>

record config =
  batch_size :: int
  epochs :: int
  features_dim :: int
  dictionary_size :: int

text \<open>The calls the claims speak about are logged, in the order in which they are made.\<close>

datatype event =
  Ev_cross_entropy_loss
  | Ev_zero_grad
  | Ev_backward
  | Ev_optimizer_step
  | Ev_momentum_update real
  | Ev_queue_data
  | Ev_dequeue_data

text \<open>
  What lives for the whole run: the two encoders, the optimizer and the log. The local
  variables of \<^verbatim>\<open>train\<close> extend it for the duration of one call.
\<close>

record 'o world =
  model_q :: "real list"
  model_k :: "real list"
  optimizer :: 'o
  calls :: "event list"

record 'o train_state = "'o world" +
  total_loss :: real
  n_data :: nat
  queue :: tensor

section \<open>The training step (\<^verbatim>\<open>train\<close>, lines 28-66)\<close>

definition logits_of :: "tensor \<Rightarrow> tensor \<Rightarrow> tensor \<Rightarrow> nat \<Rightarrow> error + tensor" where
  \<comment> \<open>lines 46-49: \<^verbatim>\<open>l_pos\<close>, \<^verbatim>\<open>l_neg\<close> and their concatenation \<^verbatim>\<open>logits\<close>\<close>
  "logits_of q k the_queue N =
     bind_err (view_N_1_x N q) (\<lambda>qv.
     bind_err (view_N_x_1 N k) (\<lambda>kv.
     bind_err (bmm qv kv) (\<lambda>l_pos.
     bind_err (mm q (tensor_t the_queue)) (\<lambda>l_neg.
     bind_err (view_N_1 N l_pos) (\<lambda>l_pos.
       cat_last l_pos l_neg)))))"

definition contrastive_loss :: "tensor \<Rightarrow> tensor \<Rightarrow> tensor \<Rightarrow> nat \<Rightarrow> real \<Rightarrow> error + real" where
  \<comment> \<open>lines 46-51: the value of \<^verbatim>\<open>loss\<close>\<close>
  "contrastive_loss q k the_queue N temp =
     bind_err (logits_of q k the_queue N) (\<lambda>logits.
       let labels = replicate N 0
       in cross_entropy_loss (div_scalar logits temp) labels)"

definition ready_branch ::
  "('x, 'o) collab \<Rightarrow> real \<Rightarrow> 'o train_state \<Rightarrow> 'x list \<Rightarrow> tensor \<Rightarrow> tensor \<Rightarrow> nat
     \<Rightarrow> error + 'o train_state" where
  \<comment> \<open>lines 46-61, the body of \<^verbatim>\<open>if K >= dictionary_size\<close>\<close>
  "ready_branch ext temp s x_q q k N =
     bind_err (contrastive_loss q k (queue s) N temp) (\<lambda>loss.
       let grad = loss_backward ext (model_q s) x_q k (queue s) temp;
           (opt', model_q') = optimizer_step ext (optimizer s) grad (model_q s);
           n_data' = n_data s + N;
           total_loss' = total_loss s + loss * real N;
           model_k' = momentum_update model_q' (model_k s) (momentum_beta ext)
       in if n_data' = 0 then Inl ZeroDivisionError
          else Inr (s\<lparr>model_q := model_q', model_k := model_k', optimizer := opt',
                      calls := calls s @ [Ev_cross_entropy_loss, Ev_zero_grad, Ev_backward,
                                          Ev_optimizer_step,
                                          Ev_momentum_update (momentum_beta ext)],
                      total_loss := total_loss', n_data := n_data'\<rparr>))"

definition key_batch ::
  "('x, 'o) collab \<Rightarrow> real list \<Rightarrow> 'x list \<Rightarrow> nat \<Rightarrow> nat list \<Rightarrow> error + tensor" where
  \<comment> \<open>lines 40-43: shuffle the key view, encode it with the key encoder, undo the shuffle\<close>
  "key_batch ext theta_k x_k N shuffle_value =
     bind_err (get_shuffle_idx N shuffle_value) (\<lambda>(shuffle_idx, reverse_idx).
     bind_err (index_select x_k shuffle_idx) (\<lambda>x_k.
       index_rows (Net_forward ext theta_k x_k) reverse_idx))"

definition train_step ::
  "('x, 'o) collab \<Rightarrow> config \<Rightarrow> real \<Rightarrow> 'o train_state \<Rightarrow> 'x list \<times> nat list
     \<Rightarrow> error + 'o train_state" where
  \<comment> \<open>lines 33-64, one pass through the body of the loop; the batch comes with the draw
      of \<^verbatim>\<open>torch.randperm\<close> for this step\<close>
  "train_step ext cfg temp s batch =
     (let (data, shuffle_value) = batch;
          x_q = data; x_k = data;
          N = length x_q; K = shape0 (queue s);
          q = Net_forward ext (model_q s) x_q
      in bind_err (key_batch ext (model_k s) x_k N shuffle_value) (\<lambda>k.
         bind_err (if int K \<ge> dictionary_size cfg then ready_branch ext temp s x_q q k N
                   else Inr s) (\<lambda>s.
           let queue1 = queue_data (queue s) k;
               queue2 = dequeue_data queue1 (dictionary_size cfg)
           in Inr (s\<lparr>calls := calls s @ [Ev_queue_data, Ev_dequeue_data],
                      queue := queue2\<rparr>))))"

fun train_loop ::
  "('x, 'o) collab \<Rightarrow> config \<Rightarrow> real \<Rightarrow> 'o train_state \<Rightarrow> ('x list \<times> nat list) list
     \<Rightarrow> error + 'o train_state" where
  \<comment> \<open>the \<^verbatim>\<open>for\<close> loop of line 32 over the batches of the loader\<close>
  "train_loop ext cfg temp s [] = Inr s"
| "train_loop ext cfg temp s (batch # train_bar) =
     (case train_step ext cfg temp s batch of
        Inl e \<Rightarrow> Inl e
      | Inr s' \<Rightarrow> train_loop ext cfg temp s' train_bar)"

definition train_entry :: "config \<Rightarrow> 'o world \<Rightarrow> error + 'o train_state" where
  \<comment> \<open>lines 30-31: the local variables at the top of the loop\<close>
  "train_entry cfg w =
     bind_err (zeros 0 (features_dim cfg)) (\<lambda>queue0.
       Inr \<lparr>model_q = model_q w, model_k = model_k w, optimizer = optimizer w,
            calls = calls w, total_loss = 0, n_data = 0, queue = queue0\<rparr>)"

definition world_of :: "'o train_state \<Rightarrow> 'o world" where
  \<comment> \<open>what is left when \<^verbatim>\<open>train\<close> returns and its local variables are gone\<close>
  "world_of s =
     \<lparr>model_q = model_q s, model_k = model_k s, optimizer = optimizer s, calls = calls s\<rparr>"

definition train_run ::
  "('x, 'o) collab \<Rightarrow> config \<Rightarrow> real \<Rightarrow> 'o world \<Rightarrow> ('x list \<times> nat list) list
     \<Rightarrow> error + 'o train_state" where
  \<comment> \<open>lines 29-64: the state in which the loop is left\<close>
  "train_run ext cfg temp w train_loader =
     bind_err (train_entry cfg w) (\<lambda>s0. train_loop ext cfg temp s0 train_loader)"

definition train ::
  "('x, 'o) collab \<Rightarrow> config \<Rightarrow> real \<Rightarrow> 'o world \<Rightarrow> ('x list \<times> nat list) list
     \<Rightarrow> error + (real \<times> 'o world)" where
  \<comment> \<open>line 66: \<^verbatim>\<open>total_loss / n_data\<close> raises when \<^verbatim>\<open>n_data\<close> is 0\<close>
  "train ext cfg temp w train_loader =
     bind_err (train_run ext cfg temp w train_loader) (\<lambda>s.
       if n_data s = 0 then Inl ZeroDivisionError
       else Inr (total_loss s / real (n_data s), world_of s))"

section \<open>The main program (lines 97-142)\<close>

text \<open>
  Lines 107-109 copy the parsed arguments into the globals without any check, so the
  configuration of a run is any value of type \<open>config\<close>. Lines 117-122 create the two
  encoders (their fresh parameters are arguments of the model), initialise the key
  encoder by a momentum update with \<^verbatim>\<open>beta=0.0\<close> and create the optimizer.
\<close>

definition main_init :: "real list \<Rightarrow> real list \<Rightarrow> 'o \<Rightarrow> 'o world" where
  "main_init q0 k0 opt0 =
     \<lparr>model_q = q0, model_k = momentum_update q0 k0 0, optimizer = opt0,
      calls = [Ev_momentum_update 0]\<rparr>"

text \<open>
  The loop over the epochs (lines 129-142): \<^verbatim>\<open>train\<close> is called with its default
  temperature 0.07, then the learning-rate schedule is stepped. The evaluation
  (\<^verbatim>\<open>test\<close>) and the files written change nothing of the state modelled here and are left
  out. The loader re-shuffles the data set in every epoch, so it is a function of the epoch.
\<close>

fun main_loop ::
  "('x, 'o) collab \<Rightarrow> config \<Rightarrow> (nat \<Rightarrow> ('x list \<times> nat list) list) \<Rightarrow> 'o world \<Rightarrow> nat list
     \<Rightarrow> real list \<Rightarrow> error + (real list \<times> 'o world)" where
  "main_loop ext cfg train_loader w [] train_loss = Inr (train_loss, w)"
| "main_loop ext cfg train_loader w (epoch # rest) train_loss =
     (case train ext cfg (7 / 100) w (train_loader epoch) of
        Inl e \<Rightarrow> Inl e
      | Inr (current_loss, w') \<Rightarrow>
          main_loop ext cfg train_loader
            (w'\<lparr>optimizer := lr_scheduler_step ext epoch (optimizer w')\<rparr>)
            rest (train_loss @ [current_loss]))"

definition main ::
  "('x, 'o) collab \<Rightarrow> config \<Rightarrow> (nat \<Rightarrow> ('x list \<times> nat list) list)
     \<Rightarrow> real list \<Rightarrow> real list \<Rightarrow> 'o \<Rightarrow> error + (real list \<times> 'o world)" where
  "main ext cfg train_loader q0 k0 opt0 =
     main_loop ext cfg train_loader (main_init q0 k0 opt0) (map nat [1..epochs cfg]) []"

section \<open>Notions used to state the properties\<close>

definition dot :: "real list \<Rightarrow> real list \<Rightarrow> real" where
  \<comment> \<open>the inner product of two vectors\<close>
  "dot a b = sum_list (map (\<lambda>(x, y). x * y) (zip a b))"

definition net_ok :: "('x, 'o) collab \<Rightarrow> nat \<Rightarrow> bool" where
  \<comment> \<open>what the model assumes of the encoder class: one embedding of dimension \<open>D\<close> per image\<close>
  "net_ok ext D \<longleftrightarrow>
     (\<forall>\<theta> x. length (rows (Net_forward ext \<theta> x)) = length x
            \<and> ncols (Net_forward ext \<theta> x) = D \<and> wf_tensor (Net_forward ext \<theta> x))"

definition loader_ok :: "('x list \<times> nat list) list \<Rightarrow> bool" where
  \<comment> \<open>what the data loader and \<^verbatim>\<open>torch.randperm\<close> deliver: no empty batch, and with every
      batch a permutation of its positions\<close>
  "loader_ok train_loader \<longleftrightarrow>
     list_all (\<lambda>(data, p). data \<noteq> [] \<and> is_randperm (length data) p) train_loader"

definition queue_after :: "int \<Rightarrow> tensor \<Rightarrow> tensor list \<Rightarrow> tensor" where
  \<comment> \<open>lines 63-64 repeated: the queue after the key batches \<open>ks\<close> have been enqueued, one by
      one, each enqueue followed by the eviction\<close>
  "queue_after K data ks = foldl (\<lambda>data k. dequeue_data (queue_data data k) K) data ks"

definition ready :: "config \<Rightarrow> 'o train_state \<Rightarrow> bool" where
  \<comment> \<open>the test of line 45 on the state at the start of a step\<close>
  "ready cfg s \<longleftrightarrow> dictionary_size cfg \<le> int (shape0 (queue s))"

definition new_calls :: "'o train_state \<Rightarrow> 'o train_state \<Rightarrow> event list" where
  \<comment> \<open>the calls logged between two states of one run\<close>
  "new_calls s s' = drop (length (calls s)) (calls s')"

text \<open>
  A small deterministic stand-in for the collaborators, used to run the model on concrete
  inputs: an image is a number, its embedding is the number scaled by the sum of the
  parameters, the gradient is constantly 1 and the optimizer subtracts it.
\<close>

definition stub_ext :: "(real, unit) collab" where
  "stub_ext =
     \<lparr>Net_forward = (\<lambda>\<theta> x. Tensor 1 (map (\<lambda>v. [sum_list \<theta> * v]) x)),
      loss_backward = (\<lambda>\<theta> x k qu t. map (\<lambda>_. 1) \<theta>),
      optimizer_step = (\<lambda>opt g \<theta>. (opt, map (\<lambda>(p, d). p - d) (zip \<theta> g))),
      momentum_beta = 1 / 2,
      lr_scheduler_step = (\<lambda>epoch opt. opt)\<rparr>"

definition stub_cfg :: "int \<Rightarrow> config" where
  \<comment> \<open>a configuration with embeddings of dimension 1 and the given dictionary size\<close>
  "stub_cfg K = \<lparr>batch_size = 1, epochs = 2, features_dim = 1, dictionary_size = K\<rparr>"

definition stub_state :: "unit train_state" where
  \<comment> \<open>a state in the middle of an epoch, with two entries in the dictionary\<close>
  "stub_state =
     \<lparr>model_q = [1], model_k = [1], optimizer = (), calls = [Ev_momentum_update 0],
      total_loss = 0, n_data = 0, queue = Tensor 1 [[3], [4]]\<rparr>"

definition stub_loader :: "(real list \<times> nat list) list \<Rightarrow> nat \<Rightarrow> (real list \<times> nat list) list" where
  \<comment> \<open>a loader that delivers the same batches in every epoch\<close>
  "stub_loader batches epoch = batches"

definition stub_world :: "unit world" where
  "stub_world = main_init [1] [5] ()"

section \<open>Properties of the shuffle indices\<close>

lemma index_copy_spec:
  assumes "length idx = length src" and "distinct idx" and "\<forall>i \<in> set idx. i < length self"
  shows "\<exists>r. index_copy self idx src = Inr r \<and> length r = length self
           \<and> (\<forall>j < length idx. r ! (idx ! j) = src ! j)
           \<and> (\<forall>m. m \<notin> set idx \<longrightarrow> r ! m = self ! m)"
  using assms
proof (induction self idx src rule: index_copy.induct)
  case (1 self)
  then show ?case by simp
next
  case (2 self i idx v src)
  from "2.prems" have i: "i < length self" and ni: "i \<notin> set idx"
    and len: "length idx = length src" and d: "distinct idx"
    and bnd: "\<forall>m \<in> set idx. m < length (self[i := v])"
    by auto
  from "2.IH" [OF i len d bnd] obtain r where
    r: "index_copy (self[i := v]) idx src = Inr r" "length r = length self"
      "\<forall>j < length idx. r ! (idx ! j) = src ! j"
      "\<forall>m. m \<notin> set idx \<longrightarrow> r ! m = (self[i := v]) ! m"
    by auto
  have head: "r ! i = v"
    using r(4) ni i by simp
  have "\<forall>j < length (i # idx). r ! ((i # idx) ! j) = (v # src) ! j"
  proof (intro allI impI)
    fix j assume "j < length (i # idx)"
    then show "r ! ((i # idx) ! j) = (v # src) ! j"
      using head r(3) by (cases j) auto
  qed
  moreover have "\<forall>m. m \<notin> set (i # idx) \<longrightarrow> r ! m = self ! m"
    using r(4) by auto
  ultimately show ?case
    using r(1,2) i by simp
qed simp_all

lemma get_shuffle_idx_spec:
  assumes "is_randperm N p"
  shows "\<exists>r. get_shuffle_idx N p = Inr (p, r) \<and> length r = N \<and> (\<forall>i < N. r ! (p ! i) = i)"
proof -
  from assms have len: "length p = length [0..<N]" and d: "distinct p"
    and bnd: "\<forall>i \<in> set p. i < length (replicate N (0::nat))"
    by (auto simp: is_randperm_def list_all_iff)
  from index_copy_spec [OF len d bnd] obtain r where
    r: "index_copy (replicate N 0) p [0..<N] = Inr r" "length r = N"
      "\<forall>j < length p. r ! (p ! j) = [0..<N] ! j"
    by auto
  from r(3) assms have "\<forall>i < N. r ! (p ! i) = i"
    by (simp add: is_randperm_def)
  with r(1,2) show ?thesis
    by (simp add: get_shuffle_idx_def bind_err_def)
qed

lemma index_select_roundtrip:
  assumes "is_randperm N p" and "length r = N" and "\<forall>i < N. r ! (p ! i) = i"
    and "length x = N"
  shows "bind_err (index_select x p) (\<lambda>y. index_select y r) = Inr x"
proof -
  from assms(1) have lp: "length p = N" and dp: "distinct p" and bp: "\<forall>i \<in> set p. i < N"
    by (auto simp: is_randperm_def list_all_iff)
  have surj: "set p = {..<N}"
  proof -
    have "set p \<subseteq> {..<N}" using bp by auto
    moreover have "card (set p) = N" using dp lp by (simp add: distinct_card)
    ultimately show ?thesis by (simp add: card_subset_eq)
  qed
  have rb: "\<forall>m < N. r ! m < N \<and> p ! (r ! m) = m"
  proof (intro allI impI)
    fix m assume "m < N"
    then have "m \<in> set p" using surj by simp
    then obtain i where i: "i < length p" "p ! i = m"
      by (auto simp: in_set_conv_nth)
    then have "r ! m = i" using assms(3) lp by auto
    with i lp show "r ! m < N \<and> p ! (r ! m) = m" by simp
  qed
  have s1: "index_select x p = Inr (map (\<lambda>i. x ! i) p)"
    using bp assms(4) by (simp add: index_select_def list_all_iff)
  have rall: "list_all (\<lambda>i. i < length (map (\<lambda>i. x ! i) p)) r"
    using rb assms(2) lp by (auto simp: list_all_length)
  have "map (\<lambda>i. map (\<lambda>i. x ! i) p ! i) r = x"
  proof (rule nth_equalityI)
    show "length (map (\<lambda>i. map (\<lambda>i. x ! i) p ! i) r) = length x"
      using assms(2,4) by simp
  next
    fix m assume "m < length (map (\<lambda>i. map (\<lambda>i. x ! i) p ! i) r)"
    then have m: "m < N" using assms(2) by simp
    with rb have "r ! m < N" "p ! (r ! m) = m" by auto
    with m show "map (\<lambda>i. map (\<lambda>i. x ! i) p ! i) r ! m = x ! m"
      using assms(2) lp by simp
  qed
  with s1 rall show ?thesis
    by (simp add: bind_err_def index_select_def)
qed

text \<open>
  C3. For every batch size \<open>N\<close> and every permutation the random generator can draw,
  \<^verbatim>\<open>get_shuffle_idx\<close> returns the draw together with an index tensor \<open>reverse\<close> of length
  \<open>N\<close> with \<open>reverse[shuffle[i]] = i\<close> for all \<open>i < N\<close>; indexing a batch of \<open>N\<close> items by
  \<open>shuffle\<close> and the result by \<open>reverse\<close> gives the batch back in its original order.
\<close>

theorem get_shuffle_idx_inverse:
  assumes "is_randperm N p"
  shows "\<exists>r. get_shuffle_idx N p = Inr (p, r) \<and> length r = N
           \<and> (\<forall>i < N. r ! (p ! i) = i)
           \<and> (\<forall>x :: 'a list. length x = N \<longrightarrow>
                 bind_err (index_select x p) (\<lambda>y. index_select y r) = Inr x)"
proof -
  from get_shuffle_idx_spec [OF assms] obtain r where
    r: "get_shuffle_idx N p = Inr (p, r)" "length r = N" "\<forall>i < N. r ! (p ! i) = i"
    by auto
  have "\<forall>x :: 'a list. length x = N \<longrightarrow>
          bind_err (index_select x p) (\<lambda>y. index_select y r) = Inr x"
    using index_select_roundtrip [OF assms r(2,3)] by blast
  with r show ?thesis by blast
qed

theorem get_shuffle_idx_inverse_witness:
  "is_randperm 3 [2, 0, 1]
   \<and> (\<exists>r. get_shuffle_idx 3 [2, 0, 1] = Inr ([2, 0, 1], r) \<and> length r = 3
           \<and> (\<forall>i < 3. r ! ([2, 0, 1] ! i) = i)
           \<and> (\<forall>x :: nat list. length x = 3 \<longrightarrow>
                 bind_err (index_select x [2, 0, 1]) (\<lambda>y. index_select y r) = Inr x))"
proof -
  have h: "is_randperm 3 [2, 0, 1]"
    by (simp add: is_randperm_def)
  show ?thesis
    using h get_shuffle_idx_inverse [OF h, where ?'a = nat] by simp
qed

section \<open>The contrastive logits and the loss\<close>

lemma chunk_concat:
  "list_all (\<lambda>r. length r = D) rs \<Longrightarrow> chunk (length rs) D (concat rs) = rs"
  by (induction rs) auto

lemma length_concat_uniform:
  "list_all (\<lambda>r. length r = D) rs \<Longrightarrow> length (concat rs) = length rs * D"
  by (induction rs) auto

lemma dot_nth:
  assumes "length a = n" and "length b = n"
  shows "sum_list (map (\<lambda>l. a ! l * b ! l) [0..<n]) = dot a b"
proof -
  have "map (\<lambda>l. a ! l * b ! l) [0..<n] = map (\<lambda>(x, y). x * y) (zip a b)"
    using assms by (intro nth_equalityI) auto
  then show ?thesis by (simp add: dot_def)
qed

lemma view_N_1_x_rows:
  assumes "0 < N" and "length (rows q) = N" and "wf_tensor q"
  shows "view_N_1_x N q = Inr (map (\<lambda>c. Tensor (ncols q) [c]) (rows q))"
proof -
  from assms(3) have u: "list_all (\<lambda>r. length r = ncols q) (rows q)"
    by (simp add: wf_tensor_def)
  have len: "length (concat (rows q)) = N * ncols q"
    using length_concat_uniform [OF u] assms(2) by simp
  have ch: "chunk N (ncols q) (concat (rows q)) = rows q"
    using chunk_concat [OF u] assms(2) by simp
  show ?thesis
    using assms(1) len ch by (simp add: view_N_1_x_def Let_def)
qed

lemma view_N_x_1_rows:
  assumes "0 < N" and "length (rows k) = N" and "wf_tensor k"
  shows "view_N_x_1 N k = Inr (map (\<lambda>c. Tensor 1 (map (\<lambda>x. [x]) c)) (rows k))"
proof -
  from assms(3) have u: "list_all (\<lambda>r. length r = ncols k) (rows k)"
    by (simp add: wf_tensor_def)
  have len: "length (concat (rows k)) = N * ncols k"
    using length_concat_uniform [OF u] assms(2) by simp
  have ch: "chunk N (ncols k) (concat (rows k)) = rows k"
    using chunk_concat [OF u] assms(2) by simp
  show ?thesis
    using assms(1) len ch by (simp add: view_N_x_1_def Let_def)
qed

lemma matmul_row_col:
  assumes "length r = D" and "length c = D"
  shows "matmul (Tensor D [r]) (Tensor 1 (map (\<lambda>x. [x]) c)) = Tensor 1 [[dot r c]]"
proof -
  have "map (\<lambda>l. r ! l * (map (\<lambda>x. [x]) c ! l) ! 0) [0..<D] = map (\<lambda>l. r ! l * c ! l) [0..<D]"
    using assms by (intro nth_equalityI) auto
  then have "sum_list (map (\<lambda>l. r ! l * (map (\<lambda>x. [x]) c ! l) ! 0) [0..<D]) = dot r c"
    by (simp only: dot_nth [OF assms])
  then show ?thesis
    by (simp add: matmul_def)
qed

lemma bmm_rows:
  assumes "length qs = length ks"
    and "list_all (\<lambda>r. length r = D) qs" and "list_all (\<lambda>r. length r = D) ks"
  shows "bmm (map (\<lambda>c. Tensor D [c]) qs) (map (\<lambda>c. Tensor 1 (map (\<lambda>x. [x]) c)) ks)
         = Inr (map (\<lambda>(x, y). Tensor 1 [[dot x y]]) (zip qs ks))"
  using assms
proof (induction qs ks rule: list_induct2)
  case Nil
  then show ?case by (simp add: bmm_def)
next
  case (Cons x xs y ys)
  then have IH: "bmm (map (\<lambda>c. Tensor D [c]) xs) (map (\<lambda>c. Tensor 1 (map (\<lambda>x. [x]) c)) ys)
         = Inr (map (\<lambda>(x, y). Tensor 1 [[dot x y]]) (zip xs ys))" by simp
  from Cons.prems have lx: "length x = D" and ly: "length y = D" by auto
  show ?case
    using IH Cons.hyps matmul_row_col [OF lx ly] lx ly
    by (simp add: bmm_def split: if_splits)
qed

lemma mm_transpose_rows:
  assumes "wf_tensor q" and "wf_tensor M" and "ncols M = ncols q"
  shows "mm q (tensor_t M) = Inr (Tensor (length (rows M)) (map (\<lambda>r. map (dot r) (rows M)) (rows q)))"
proof -
  have entry: "map (\<lambda>j. sum_list (map (\<lambda>l. r ! l * (rows (tensor_t M) ! l) ! j) [0..<ncols q]))
                 [0..<length (rows M)] = map (dot r) (rows M)"
    if r: "r \<in> set (rows q)" for r
  proof (rule nth_equalityI)
    show "length (map (\<lambda>j. sum_list (map (\<lambda>l. r ! l * (rows (tensor_t M) ! l) ! j) [0..<ncols q]))
                 [0..<length (rows M)]) = length (map (dot r) (rows M))" by simp
  next
    fix j assume "j < length (map (\<lambda>j. sum_list (map (\<lambda>l. r ! l * (rows (tensor_t M) ! l) ! j) [0..<ncols q]))
                 [0..<length (rows M)])"
    then have j: "j < length (rows M)" by simp
    have lr: "length r = ncols q"
      using assms(1) r by (simp add: wf_tensor_def list_all_iff)
    have lm: "length (rows M ! j) = ncols q"
      using assms(2,3) j by (simp add: wf_tensor_def list_all_length)
    have "map (\<lambda>l. r ! l * (rows (tensor_t M) ! l) ! j) [0..<ncols q]
            = map (\<lambda>l. r ! l * (rows M ! j) ! l) [0..<ncols q]"
      using j assms(3) by (intro nth_equalityI) (auto simp: tensor_t_def)
    then have "sum_list (map (\<lambda>l. r ! l * (rows (tensor_t M) ! l) ! j) [0..<ncols q])
                 = dot r (rows M ! j)"
      by (simp only: dot_nth [OF lr lm])
    then show "map (\<lambda>j. sum_list (map (\<lambda>l. r ! l * (rows (tensor_t M) ! l) ! j) [0..<ncols q]))
                 [0..<length (rows M)] ! j = map (dot r) (rows M) ! j"
      using j by simp
  qed
  have "ncols q = length (rows (tensor_t M))"
    using assms(3) by (simp add: tensor_t_def)
  moreover have "ncols (tensor_t M) = length (rows M)"
    by (simp add: tensor_t_def)
  ultimately show ?thesis
    using entry by (simp add: mm_def matmul_def cong: map_cong)
qed

lemma flat_singletons:
  "concat (map (\<lambda>m. concat (rows m)) (map (\<lambda>(x, y). Tensor 1 [[f x y]]) zs))
     = map (\<lambda>(x, y). f x y) zs"
  by (induction zs) auto

lemma logits_of_value:
  assumes "0 < N" and "length (rows q) = N" and "wf_tensor q"
    and "length (rows k) = N" and "wf_tensor k" and "ncols k = ncols q"
    and "wf_tensor M" and "ncols M = ncols q"
  shows "logits_of q k M N =
           Inr (Tensor (1 + length (rows M))
                  (map (\<lambda>(x, y). dot x y # map (dot x) (rows M)) (zip (rows q) (rows k))))"
proof -
  let ?pos = "map (\<lambda>(x, y). dot x y) (zip (rows q) (rows k))"
  have v1: "view_N_1_x N q = Inr (map (\<lambda>c. Tensor (ncols q) [c]) (rows q))"
    by (rule view_N_1_x_rows [OF assms(1,2,3)])
  have v2: "view_N_x_1 N k = Inr (map (\<lambda>c. Tensor 1 (map (\<lambda>x. [x]) c)) (rows k))"
    by (rule view_N_x_1_rows [OF assms(1,4,5)])
  have b: "bmm (map (\<lambda>c. Tensor (ncols q) [c]) (rows q))
               (map (\<lambda>c. Tensor 1 (map (\<lambda>x. [x]) c)) (rows k))
             = Inr (map (\<lambda>(x, y). Tensor 1 [[dot x y]]) (zip (rows q) (rows k)))"
    using assms(2,3,4,5,6) by (intro bmm_rows) (simp_all add: wf_tensor_def)
  have m: "mm q (tensor_t M)
             = Inr (Tensor (length (rows M)) (map (\<lambda>r. map (dot r) (rows M)) (rows q)))"
    by (rule mm_transpose_rows [OF assms(3,7,8)])
  have lp: "length ?pos = N"
    using assms(2,4) by simp
  have v3: "view_N_1 N (map (\<lambda>(x, y). Tensor 1 [[dot x y]]) (zip (rows q) (rows k)))
              = Inr (Tensor 1 (map (\<lambda>x. [x]) ?pos))"
    unfolding view_N_1_def Let_def flat_singletons using lp by simp
  have rws: "map (\<lambda>(x, y). x @ y)
               (zip (map (\<lambda>x. [x]) ?pos) (map (\<lambda>r. map (dot r) (rows M)) (rows q)))
             = map (\<lambda>(x, y). dot x y # map (dot x) (rows M)) (zip (rows q) (rows k))"
    using assms(2,4) by (intro nth_equalityI) auto
  have c: "cat_last (Tensor 1 (map (\<lambda>x. [x]) ?pos))
             (Tensor (length (rows M)) (map (\<lambda>r. map (dot r) (rows M)) (rows q)))
           = Inr (Tensor (1 + length (rows M))
                  (map (\<lambda>(x, y). dot x y # map (dot x) (rows M)) (zip (rows q) (rows k))))"
    using lp assms(2) rws by (simp add: cat_last_def)
  show ?thesis
    by (simp only: logits_of_def bind_err_def v1 v2 b m v3 c sum.case)
qed

lemma cross_entropy_zero_labels:
  assumes "0 < ncols a"
  shows "cross_entropy_loss a (replicate (length (rows a)) 0)
           = Inr (sum_list (map (\<lambda>x. - ln (exp (x ! 0) / sum_list (map exp x))) (rows a))
                  / real (length (rows a)))"
proof -
  have "map (\<lambda>(x, c). - ln (exp (x ! c) / sum_list (map exp x)))
          (zip (rows a) (replicate (length (rows a)) 0))
        = map (\<lambda>x. - ln (exp (x ! 0) / sum_list (map exp x))) (rows a)"
    by (intro nth_equalityI) auto
  then show ?thesis
    using assms by (simp add: cross_entropy_loss_def list_all_length)
qed

lemma contrastive_loss_value:
  assumes "0 < N" and "length (rows q) = N" and "wf_tensor q"
    and "length (rows k) = N" and "wf_tensor k" and "ncols k = ncols q"
    and "wf_tensor M" and "ncols M = ncols q"
  shows "contrastive_loss q k M N temp =
           Inr (sum_list (map (\<lambda>x. - ln (exp (x ! 0) / sum_list (map exp x)))
                  (map (\<lambda>(x, y). map (\<lambda>v. v / temp) (dot x y # map (dot x) (rows M)))
                     (zip (rows q) (rows k))))
                / real N)"
proof -
  let ?L = "Tensor (1 + length (rows M))
              (map (\<lambda>(x, y). dot x y # map (dot x) (rows M)) (zip (rows q) (rows k)))"
  have l: "logits_of q k M N = Inr ?L"
    by (rule logits_of_value [OF assms])
  have len: "length (rows (div_scalar ?L temp)) = N"
    using assms(2,4) by (simp add: div_scalar_def)
  have rw: "rows (div_scalar ?L temp)
             = map (\<lambda>(x, y). map (\<lambda>v. v / temp) (dot x y # map (dot x) (rows M)))
                     (zip (rows q) (rows k))"
    by (simp add: div_scalar_def split_def)
  have ce: "cross_entropy_loss (div_scalar ?L temp) (replicate (length (rows (div_scalar ?L temp))) 0)
          = Inr (sum_list (map (\<lambda>x. - ln (exp (x ! 0) / sum_list (map exp x)))
                   (rows (div_scalar ?L temp)))
                 / real (length (rows (div_scalar ?L temp))))"
    by (rule cross_entropy_zero_labels) (simp add: div_scalar_def)
  have ce2: "cross_entropy_loss (div_scalar ?L temp) (replicate N 0)
          = Inr (sum_list (map (\<lambda>x. - ln (exp (x ! 0) / sum_list (map exp x)))
                   (rows (div_scalar ?L temp)))
                 / real N)"
    using ce by (simp only: len)
  have ce3: "cross_entropy_loss (div_scalar ?L temp) (replicate N 0)
          = Inr (sum_list (map (\<lambda>x. - ln (exp (x ! 0) / sum_list (map exp x)))
                  (map (\<lambda>(x, y). map (\<lambda>v. v / temp) (dot x y # map (dot x) (rows M)))
                     (zip (rows q) (rows k))))
                / real N)"
    using ce2 by (simp only: rw)
  show ?thesis
    by (simp only: contrastive_loss_def bind_err_def l sum.case Let_def ce3)
qed

lemma sum_list_nth_sum: "sum_list (map f xs) = (\<Sum>j < length xs. f (xs ! j))"
proof -
  have "sum_list (map f xs) = (\<Sum>j = 0..<length (map f xs). map f xs ! j)"
    by (rule sum_list_sum_nth)
  also have "\<dots> = (\<Sum>j < length xs. f (xs ! j))"
    by (simp add: atLeast0LessThan)
  finally show ?thesis .
qed

text \<open>
  C4. In a step with a query batch \<open>q\<close> and an aligned key batch \<open>k\<close> of \<open>N\<close> embeddings of
  dimension \<open>D\<close> and a dictionary \<open>M\<close> of \<open>C\<close> embeddings of the same dimension, the
  tensor \<^verbatim>\<open>logits\<close> has \<open>N\<close> rows of length \<open>1 + C\<close>; row \<open>i\<close> is the inner product of \<open>q[i]\<close>
  and \<open>k[i]\<close> followed by the inner products of \<open>q[i]\<close> with every dictionary entry, in the
  order of the dictionary. The loss is the mean over the \<open>N\<close> examples of the
  cross-entropy of row \<open>i\<close>, every entry divided by \<open>temp\<close>, against class 0.
\<close>

theorem contrastive_loss_rows:
  assumes "0 < N" and "length (rows q) = N" and "wf_tensor q"
    and "length (rows k) = N" and "wf_tensor k" and "ncols k = ncols q"
    and "wf_tensor M" and "ncols M = ncols q" and "length (rows M) = C" and "temp \<noteq> 0"
  shows "\<exists>logits. logits_of q k M N = Inr logits
           \<and> length (rows logits) = N \<and> ncols logits = 1 + C
           \<and> (\<forall>i < N. rows logits ! i
                         = dot (rows q ! i) (rows k ! i) # map (dot (rows q ! i)) (rows M))
           \<and> contrastive_loss q k M N temp
               = Inr ((\<Sum>i < N. - ln (exp (rows logits ! i ! 0 / temp)
                                      / (\<Sum>j < 1 + C. exp (rows logits ! i ! j / temp))))
                      / real N)"
proof -
  let ?row = "\<lambda>(x, y). dot x y # map (dot x) (rows M)"
  let ?R = "map ?row (zip (rows q) (rows k))"
  let ?L = "Tensor (1 + length (rows M)) ?R"
  let ?ce = "\<lambda>x. - ln (exp (x ! 0) / sum_list (map exp x))"
  let ?ce' = "\<lambda>x. - ln (exp (x ! 0 / temp) / (\<Sum>j < 1 + C. exp (x ! j / temp)))"
  have l: "logits_of q k M N = Inr ?L"
    by (rule logits_of_value [OF assms(1-8)])
  have lenR: "length ?R = N"
    using assms(2,4) by simp
  have rowi: "\<forall>i < N. ?R ! i = dot (rows q ! i) (rows k ! i) # map (dot (rows q ! i)) (rows M)"
    using assms(2,4) by simp
  have rowlen: "length x = 1 + C" if "x \<in> set ?R" for x
    using that assms(9) by auto
  have per: "?ce (map (\<lambda>v. v / temp) x) = ?ce' x" if x: "x \<in> set ?R" for x
  proof -
    have "sum_list (map exp (map (\<lambda>v. v / temp) x)) = (\<Sum>j < length x. exp (x ! j / temp))"
      by (simp add: sum_list_nth_sum comp_def)
    moreover have "map (\<lambda>v. v / temp) x ! 0 = x ! 0 / temp"
      using rowlen [OF x] by simp
    ultimately show ?thesis
      using rowlen [OF x] by simp
  qed
  have "map (\<lambda>(x, y). map (\<lambda>v. v / temp) (dot x y # map (dot x) (rows M))) (zip (rows q) (rows k))
          = map (map (\<lambda>v. v / temp)) ?R"
    by (simp add: split_def)
  then have "sum_list (map ?ce (map (\<lambda>(x, y). map (\<lambda>v. v / temp)
                 (dot x y # map (dot x) (rows M))) (zip (rows q) (rows k))))
          = sum_list (map (\<lambda>x. ?ce (map (\<lambda>v. v / temp) x)) ?R)"
    by (simp only: map_map comp_def)
  also have "\<dots> = sum_list (map ?ce' ?R)"
    using per by (intro arg_cong [where f = sum_list] map_cong refl)
  also have "\<dots> = (\<Sum>i < length ?R. ?ce' (?R ! i))"
    by (rule sum_list_nth_sum)
  also have "\<dots> = (\<Sum>i < N. ?ce' (?R ! i))"
    by (simp only: lenR)
  finally have eq: "sum_list (map ?ce (map (\<lambda>(x, y). map (\<lambda>v. v / temp)
                 (dot x y # map (dot x) (rows M))) (zip (rows q) (rows k))))
          = (\<Sum>i < N. ?ce' (?R ! i))" .
  have cl: "contrastive_loss q k M N temp = Inr ((\<Sum>i < N. ?ce' (?R ! i)) / real N)"
    by (rule trans [OF contrastive_loss_value [OF assms(1-8)]]) (simp only: eq)
  have sel: "rows ?L = ?R"
    by (rule tensor.sel)
  have n1: "length (rows ?L) = N"
    by (simp only: sel lenR)
  have n2: "ncols ?L = 1 + C"
    by (simp only: tensor.sel assms(9))
  have n3: "\<forall>i < N. rows ?L ! i
              = dot (rows q ! i) (rows k ! i) # map (dot (rows q ! i)) (rows M)"
    unfolding sel by (rule rowi)
  have n4: "contrastive_loss q k M N temp = Inr ((\<Sum>i < N. ?ce' (rows ?L ! i)) / real N)"
    unfolding sel by (rule cl)
  show ?thesis
    by (rule exI [of _ ?L]) (intro conjI l n1 n2 n3 n4)
qed

theorem contrastive_loss_rows_witness:
  "(0::nat) < 2 \<and> length (rows (Tensor 2 [[1, 0], [0, 1]])) = 2
   \<and> wf_tensor (Tensor 2 [[1, 0], [0, 1]])
   \<and> length (rows (Tensor 2 [[1, 2], [3, 4]])) = 2 \<and> wf_tensor (Tensor 2 [[1, 2], [3, 4]])
   \<and> ncols (Tensor 2 [[1, 2], [3, 4]]) = ncols (Tensor 2 [[1, 0], [0, 1]])
   \<and> wf_tensor (Tensor 2 [[5, 6]]) \<and> ncols (Tensor 2 [[5, 6]]) = ncols (Tensor 2 [[1, 0], [0, 1]])
   \<and> length (rows (Tensor 2 [[5, 6]])) = 1 \<and> (1 / 10 :: real) \<noteq> 0
   \<and> (\<exists>logits. logits_of (Tensor 2 [[1, 0], [0, 1]]) (Tensor 2 [[1, 2], [3, 4]])
                  (Tensor 2 [[5, 6]]) 2 = Inr logits
           \<and> length (rows logits) = 2 \<and> ncols logits = 1 + 1
           \<and> (\<forall>i < 2. rows logits ! i
                 = dot (rows (Tensor 2 [[1, 0], [0, 1]]) ! i) (rows (Tensor 2 [[1, 2], [3, 4]]) ! i)
                   # map (dot (rows (Tensor 2 [[1, 0], [0, 1]]) ! i)) (rows (Tensor 2 [[5, 6]])))
           \<and> contrastive_loss (Tensor 2 [[1, 0], [0, 1]]) (Tensor 2 [[1, 2], [3, 4]])
                  (Tensor 2 [[5, 6]]) 2 (1 / 10)
               = Inr ((\<Sum>i < 2. - ln (exp (rows logits ! i ! 0 / (1 / 10))
                                      / (\<Sum>j < 1 + 1. exp (rows logits ! i ! j / (1 / 10)))))
                      / real 2))"
proof -
  have h1: "(0::nat) < 2" by simp
  have h2: "length (rows (Tensor 2 [[1, 0], [0, 1]])) = 2" by simp
  have h3: "wf_tensor (Tensor 2 [[1, 0], [0, 1]])" by (simp add: wf_tensor_def)
  have h4: "length (rows (Tensor 2 [[1, 2], [3, 4]])) = 2" by simp
  have h5: "wf_tensor (Tensor 2 [[1, 2], [3, 4]])" by (simp add: wf_tensor_def)
  have h6: "ncols (Tensor 2 [[1, 2], [3, 4]]) = ncols (Tensor 2 [[1, 0], [0, 1]])" by simp
  have h7: "wf_tensor (Tensor 2 [[5, 6]])" by (simp add: wf_tensor_def)
  have h8: "ncols (Tensor 2 [[5, 6]]) = ncols (Tensor 2 [[1, 0], [0, 1]])" by simp
  have h9: "length (rows (Tensor 2 [[5, 6]])) = 1" by simp
  have h10: "(1 / 10 :: real) \<noteq> 0" by simp
  note c = contrastive_loss_rows [OF h1 h2 h3 h4 h5 h6 h7 h8 h9 h10]
  show ?thesis
    by (intro conjI h1 h2 h3 h4 h5 h6 h7 h8 h9 h10 c)
qed

section \<open>The dictionary is a first-in first-out buffer\<close>

lemma evict_to_capacity_drop:
  "0 \<le> K \<Longrightarrow> evict_to_capacity xs K = drop (length xs - nat K) xs"
proof (induction xs)
  case Nil
  then show ?case by simp
next
  case (Cons x xs)
  show ?case
  proof (cases "int (length (x # xs)) > K")
    case True
    then have "length (x # xs) - nat K = Suc (length xs - nat K)"
      using Cons.prems by simp
    with True Cons show ?thesis by simp
  next
    case False
    then have "length (x # xs) - nat K = 0"
      using Cons.prems by simp
    with False show ?thesis by simp
  qed
qed

lemma rows_enqueue_evict:
  "0 \<le> K \<Longrightarrow> rows (dequeue_data (queue_data data k) K)
     = drop (length (rows data) + length (rows k) - nat K) (rows data @ rows k)"
  by (simp add: dequeue_data_def queue_data_def evict_to_capacity_drop)

lemma ncols_enqueue_evict: "ncols (dequeue_data (queue_data data k) K) = ncols data"
  by (simp add: dequeue_data_def queue_data_def)

lemma drop_drop_append:
  "drop (length (drop a xs) + length ys - K) (drop a xs @ ys)
     = drop (length xs + length ys - K) (xs @ ys)" if "a = length xs - K" for K :: nat
  using that by (cases "length xs \<le> K") (auto simp: drop_append add.commute)

lemma rows_queue_after:
  assumes "0 \<le> K" and "length (rows data) \<le> nat K"
  shows "rows (queue_after K data ks)
     = drop (length (rows data) + length (concat (map rows ks)) - nat K)
            (rows data @ concat (map rows ks))"
  using assms(2) unfolding queue_after_def
proof (induction ks arbitrary: data)
  case Nil
  then show ?case by simp
next
  case (Cons k ks)
  let ?f = "\<lambda>data k. dequeue_data (queue_data data k) K"
  let ?xs = "rows data @ rows k"
  let ?ys = "concat (map rows ks)"
  have r: "rows (?f data k) = drop (length ?xs - nat K) ?xs"
    using rows_enqueue_evict [OF assms(1)] by simp
  have "rows (foldl ?f data (k # ks)) = rows (foldl ?f (?f data k) ks)"
    by simp
  also have "\<dots> = drop (length (rows (?f data k)) + length ?ys - nat K) (rows (?f data k) @ ?ys)"
    by (rule Cons.IH) (simp add: r)
  also have "\<dots> = drop (length (drop (length ?xs - nat K) ?xs) + length ?ys - nat K)
                       (drop (length ?xs - nat K) ?xs @ ?ys)"
    by (simp only: r)
  also have "\<dots> = drop (length ?xs + length ?ys - nat K) (?xs @ ?ys)"
    by (rule drop_drop_append) (rule refl)
  also have "\<dots> = drop (length (rows data) + length (concat (map rows (k # ks))) - nat K)
                       (rows data @ concat (map rows (k # ks)))"
    by (simp add: add.assoc)
  finally show ?case .
qed

text \<open>
  C2. Start from the empty dictionary and enqueue key batches one by one, each enqueue
  followed by the eviction to a capacity \<open>K \<ge> 0\<close>. After each enqueue-then-evict (after
  the first \<open>n\<close> batches, for any \<open>n\<close>) at which the vectors enqueued so far are more than
  \<open>K\<close>, the dictionary holds exactly \<open>K\<close> vectors, and they are the last \<open>K\<close> of the
  vectors enqueued so far, in the order in which they were enqueued: what was evicted is
  the front of that sequence, its oldest part.
\<close>

theorem dictionary_keeps_most_recent:
  assumes "0 \<le> K" and "rows data = []"
    and "K < int (length (concat (map rows (take n ks))))"
  shows "int (shape0 (queue_after K data (take n ks))) = K
         \<and> rows (queue_after K data (take n ks))
             = drop (length (concat (map rows (take n ks))) - nat K)
                    (concat (map rows (take n ks)))
         \<and> concat (map rows (take n ks))
             = take (length (concat (map rows (take n ks))) - nat K)
                    (concat (map rows (take n ks)))
               @ rows (queue_after K data (take n ks))"
proof -
  let ?all = "concat (map rows (take n ks))"
  have r: "rows (queue_after K data (take n ks)) = drop (length ?all - nat K) ?all"
    using rows_queue_after [OF assms(1), of data "take n ks"] assms(2) by simp
  have "length (drop (length ?all - nat K) ?all) = nat K"
    using assms(1,3) by simp
  then have a: "int (shape0 (queue_after K data (take n ks))) = K"
    using assms(1) by (simp add: shape0_def r)
  have c: "?all = take (length ?all - nat K) ?all @ rows (queue_after K data (take n ks))"
    unfolding r by simp
  show ?thesis
    by (intro conjI a r c)
qed

theorem dictionary_keeps_most_recent_witness:
  "(0::int) \<le> 2 \<and> rows (Tensor 1 []) = []
   \<and> 2 < int (length (concat (map rows (take 2 [Tensor 1 [[1], [2]], Tensor 1 [[3]]]))))
   \<and> int (shape0 (queue_after 2 (Tensor 1 []) (take 2 [Tensor 1 [[1], [2]], Tensor 1 [[3]]]))) = 2
   \<and> rows (queue_after 2 (Tensor 1 []) (take 2 [Tensor 1 [[1], [2]], Tensor 1 [[3]]]))
       = [[2], [3]]"
proof -
  have h1: "(0::int) \<le> 2" by simp
  have h2: "rows (Tensor 1 []) = []" by simp
  have h3: "2 < int (length (concat (map rows (take 2 [Tensor 1 [[1], [2]], Tensor 1 [[3]]]))))"
    by simp
  note t = dictionary_keeps_most_recent [OF h1 h2 h3]
  have a: "int (shape0 (queue_after 2 (Tensor 1 []) (take 2 [Tensor 1 [[1], [2]], Tensor 1 [[3]]]))) = 2"
    by (rule conjunct1 [OF t])
  have "rows (queue_after 2 (Tensor 1 []) (take 2 [Tensor 1 [[1], [2]], Tensor 1 [[3]]]))
       = drop (length (concat (map rows (take 2 [Tensor 1 [[1], [2]], Tensor 1 [[3]]]))) - nat 2)
              (concat (map rows (take 2 [Tensor 1 [[1], [2]], Tensor 1 [[3]]])))"
    by (rule conjunct1 [OF conjunct2 [OF t]])
  also have "\<dots> = [[2], [3]]"
    by simp
  finally have b: "rows (queue_after 2 (Tensor 1 []) (take 2 [Tensor 1 [[1], [2]], Tensor 1 [[3]]]))
       = [[2], [3]]" .
  show ?thesis by (intro conjI h1 h2 h3 a b)
qed

section \<open>One training step\<close>

lemma reverse_idx_bounded:
  assumes "is_randperm N p" and "length r = N" and "\<forall>i < N. r ! (p ! i) = i"
  shows "list_all (\<lambda>i. i < N) r"
proof -
  from assms(1) have lp: "length p = N" and dp: "distinct p" and bp: "\<forall>i \<in> set p. i < N"
    by (auto simp: is_randperm_def list_all_iff)
  have "set p \<subseteq> {..<N}" using bp by auto
  moreover have "card (set p) = N" using dp lp by (simp add: distinct_card)
  ultimately have surj: "set p = {..<N}" by (simp add: card_subset_eq)
  have "r ! m < N" if "m < N" for m
  proof -
    from that have "m \<in> set p" using surj by simp
    then obtain i where i: "i < length p" "p ! i = m"
      by (auto simp: in_set_conv_nth)
    then have "r ! m = i" using assms(3) lp by auto
    with i lp show ?thesis by simp
  qed
  then show ?thesis
    using assms(2) by (simp add: list_all_length)
qed

lemma key_batch_ok:
  assumes "net_ok ext D" and "is_randperm (length x) p"
  shows "\<exists>k. key_batch ext \<theta> x (length x) p = Inr k
           \<and> length (rows k) = length x \<and> ncols k = D \<and> wf_tensor k"
proof -
  from get_shuffle_idx_spec [OF assms(2)] obtain r where
    r: "get_shuffle_idx (length x) p = Inr (p, r)" "length r = length x"
      "\<forall>i < length x. r ! (p ! i) = i"
    by auto
  have rb: "list_all (\<lambda>i. i < length x) r"
    by (rule reverse_idx_bounded [OF assms(2) r(2,3)])
  have pb: "list_all (\<lambda>i. i < length x) p" and lp: "length p = length x"
    using assms(2) by (simp_all add: is_randperm_def)
  let ?xs = "map (\<lambda>i. x ! i) p"
  let ?y = "Net_forward ext \<theta> ?xs"
  have s1: "index_select x p = Inr ?xs"
    using pb by (simp add: index_select_def)
  have y: "length (rows ?y) = length x" "ncols ?y = D" "wf_tensor ?y"
    using assms(1) lp by (simp_all add: net_ok_def)
  have s2: "index_rows ?y r = Inr (Tensor D (map (\<lambda>i. rows ?y ! i) r))"
    using rb y(1,2) by (simp add: index_rows_def index_select_def bind_err_def)
  have wf: "wf_tensor (Tensor D (map (\<lambda>i. rows ?y ! i) r))"
    using y rb by (auto simp: wf_tensor_def list_all_length)
  have "key_batch ext \<theta> x (length x) p = Inr (Tensor D (map (\<lambda>i. rows ?y ! i) r))"
    by (simp add: key_batch_def bind_err_def r(1) s1 s2)
  with wf r(2) show ?thesis by simp
qed

lemma set_evict_to_capacity: "set (evict_to_capacity xs K) \<subseteq> set xs"
  by (induction xs) auto

lemma wf_enqueue_evict:
  assumes "wf_tensor data" and "wf_tensor k" and "ncols k = ncols data"
  shows "wf_tensor (dequeue_data (queue_data data k) K)"
proof -
  have "set (evict_to_capacity (rows data @ rows k) K) \<subseteq> set (rows data) \<union> set (rows k)"
    using set_evict_to_capacity [of "rows data @ rows k" K] by simp
  then show ?thesis
    using assms by (auto simp: wf_tensor_def dequeue_data_def queue_data_def list_all_iff)
qed

lemma train_step_not_ready:
  assumes "key_batch ext (model_k s) data (length data) p = Inr k" and "\<not> ready cfg s"
  shows "train_step ext cfg temp s (data, p)
           = Inr (s\<lparr>calls := calls s @ [Ev_queue_data, Ev_dequeue_data],
                    queue := dequeue_data (queue_data (queue s) k) (dictionary_size cfg)\<rparr>)"
  using assms by (simp add: train_step_def bind_err_def ready_def)

lemma ready_branch_value:
  assumes "contrastive_loss q k (queue s) N temp = Inr loss" and "0 < N"
    and "optimizer_step ext (optimizer s) (loss_backward ext (model_q s) x_q k (queue s) temp)
           (model_q s) = (opt', q')"
  shows "ready_branch ext temp s x_q q k N
           = Inr (s\<lparr>model_q := q',
                    model_k := momentum_update q' (model_k s) (momentum_beta ext),
                    optimizer := opt',
                    calls := calls s @ [Ev_cross_entropy_loss, Ev_zero_grad, Ev_backward,
                                        Ev_optimizer_step,
                                        Ev_momentum_update (momentum_beta ext)],
                    total_loss := total_loss s + loss * real N,
                    n_data := n_data s + N\<rparr>)"
  using assms by (simp add: ready_branch_def bind_err_def)

lemma train_step_ready:
  assumes "key_batch ext (model_k s) data (length data) p = Inr k" and "ready cfg s"
    and "contrastive_loss (Net_forward ext (model_q s) data) k (queue s) (length data) temp
           = Inr loss"
    and "data \<noteq> []"
    and "optimizer_step ext (optimizer s) (loss_backward ext (model_q s) data k (queue s) temp)
           (model_q s) = (opt', q')"
  shows "train_step ext cfg temp s (data, p)
           = Inr (s\<lparr>model_q := q',
                    model_k := momentum_update q' (model_k s) (momentum_beta ext),
                    optimizer := opt',
                    calls := calls s @ [Ev_cross_entropy_loss, Ev_zero_grad, Ev_backward,
                                        Ev_optimizer_step,
                                        Ev_momentum_update (momentum_beta ext),
                                        Ev_queue_data, Ev_dequeue_data],
                    total_loss := total_loss s + loss * real (length data),
                    n_data := n_data s + length data,
                    queue := dequeue_data (queue_data (queue s) k) (dictionary_size cfg)\<rparr>)"
proof -
  have "0 < length data" using assms(4) by simp
  from ready_branch_value [OF assms(3) this assms(5)] assms(1,2)
  show ?thesis
    by (simp add: train_step_def bind_err_def ready_def Let_def)
qed

lemma train_step_result:
  assumes "net_ok ext D" and "wf_tensor (queue s)" and "ncols (queue s) = D"
    and "data \<noteq> []" and "is_randperm (length data) p"
  shows "\<exists>k loss opt' q'.
           key_batch ext (model_k s) data (length data) p = Inr k
           \<and> length (rows k) = length data \<and> ncols k = D \<and> wf_tensor k
           \<and> contrastive_loss (Net_forward ext (model_q s) data) k (queue s) (length data) temp
               = Inr loss
           \<and> optimizer_step ext (optimizer s)
                 (loss_backward ext (model_q s) data k (queue s) temp) (model_q s) = (opt', q')
           \<and> train_step ext cfg temp s (data, p)
               = Inr (if ready cfg s
                      then s\<lparr>model_q := q',
                             model_k := momentum_update q' (model_k s) (momentum_beta ext),
                             optimizer := opt',
                             calls := calls s @ [Ev_cross_entropy_loss, Ev_zero_grad, Ev_backward,
                                                 Ev_optimizer_step,
                                                 Ev_momentum_update (momentum_beta ext),
                                                 Ev_queue_data, Ev_dequeue_data],
                             total_loss := total_loss s + loss * real (length data),
                             n_data := n_data s + length data,
                             queue := dequeue_data (queue_data (queue s) k) (dictionary_size cfg)\<rparr>
                      else s\<lparr>calls := calls s @ [Ev_queue_data, Ev_dequeue_data],
                             queue := dequeue_data (queue_data (queue s) k) (dictionary_size cfg)\<rparr>)"
proof -
  from key_batch_ok [OF assms(1,5)] obtain k where
    k: "key_batch ext (model_k s) data (length data) p = Inr k"
      "length (rows k) = length data" "ncols k = D" "wf_tensor k"
    by blast
  let ?q = "Net_forward ext (model_q s) data"
  have q: "length (rows ?q) = length data" "ncols ?q = D" "wf_tensor ?q"
    using assms(1) by (simp_all add: net_ok_def)
  have N: "0 < length data"
    using assms(4) by simp
  have kq: "ncols k = ncols ?q" and Mq: "ncols (queue s) = ncols ?q"
    using k(3) q(2) assms(3) by simp_all
  note cl = contrastive_loss_value [OF N q(1) q(3) k(2) k(4) kq assms(2) Mq, of temp]
  obtain opt' q' where
    o: "optimizer_step ext (optimizer s)
          (loss_backward ext (model_q s) data k (queue s) temp) (model_q s) = (opt', q')"
    by (cases "optimizer_step ext (optimizer s)
          (loss_backward ext (model_q s) data k (queue s) temp) (model_q s)")
  show ?thesis
  proof (cases "ready cfg s")
    case True
    note st = train_step_ready [OF k(1) True cl assms(4) o]
    show ?thesis
      using k cl o st True by (intro exI conjI) (simp_all only: if_True)
  next
    case False
    note st = train_step_not_ready [OF k(1) False, of temp]
    show ?thesis
      using k cl o st False by (intro exI conjI) (simp_all only: if_False)
  qed
qed

section \<open>Gating of the loss, the optimizer step and the momentum update\<close>

text \<open>
  C1. In every training step (on a well-formed batch), the cross-entropy loss is computed
  and the optimizer takes its step if and only if the dictionary is ready, that is, its
  length at the start of the step is at least the capacity; a momentum update is made only
  in such a step (and then it is made). In a ready step the loss of lines 46-51 on the query
  batch, the key batch and the dictionary enters the running total, the batch size enters
  the count of examples, the query encoder and the optimizer become what the optimizer
  step returns on the gradient of this loss, and the key encoder becomes the momentum
  update of the new query encoder. When the dictionary is not ready, neither encoder, nor
  the optimizer, nor the running totals change. In every step, ready or not, the key batch
  is enqueued and the dictionary is evicted to capacity.
\<close>

theorem step_gating:
  assumes "net_ok ext D"
    and "wf_tensor (queue s)"
    and "ncols (queue s) = D"
    and "data \<noteq> []"
    and "is_randperm (length data) p"
  shows "\<exists>s' k. train_step ext cfg temp s (data, p) = Inr s'
           \<and> key_batch ext (model_k s) data (length data) p = Inr k
           \<and> (Ev_cross_entropy_loss \<in> set (new_calls s s') \<longleftrightarrow> ready cfg s)
           \<and> (Ev_optimizer_step \<in> set (new_calls s s') \<longleftrightarrow> ready cfg s)
           \<and> (Ev_momentum_update (momentum_beta ext) \<in> set (new_calls s s')
                 \<longleftrightarrow> ready cfg s)
           \<and> (\<forall>b. Ev_momentum_update b \<in> set (new_calls s s') \<longrightarrow> ready cfg s)
           \<and> (\<not> ready cfg s \<longrightarrow>
                 model_q s' = model_q s \<and> model_k s' = model_k s \<and> optimizer s' = optimizer s
                 \<and> total_loss s' = total_loss s \<and> n_data s' = n_data s)
           \<and> (ready cfg s \<longrightarrow>
                 (\<exists>loss. contrastive_loss (Net_forward ext (model_q s) data) k (queue s)
                            (length data) temp = Inr loss
                        \<and> total_loss s' = total_loss s + loss * real (length data))
                 \<and> n_data s' = n_data s + length data
                 \<and> (optimizer s', model_q s')
                     = optimizer_step ext (optimizer s)
                         (loss_backward ext (model_q s) data k (queue s) temp)
                         (model_q s)
                 \<and> model_k s' = momentum_update (model_q s') (model_k s) (momentum_beta ext))
           \<and> Ev_queue_data \<in> set (new_calls s s') \<and> Ev_dequeue_data \<in> set (new_calls s s')
           \<and> queue s' = dequeue_data (queue_data (queue s) k) (dictionary_size cfg)"
proof -
  from train_step_result [OF assms, of temp cfg] obtain k loss opt' q' where
    k: "key_batch ext (model_k s) data (length data) p = Inr k"
    and cl: "contrastive_loss (Net_forward ext (model_q s) data) k (queue s) (length data) temp
               = Inr loss"
    and o: "optimizer_step ext (optimizer s)
              (loss_backward ext (model_q s) data k (queue s) temp) (model_q s) = (opt', q')"
    and st: "train_step ext cfg temp s (data, p)
               = Inr (if ready cfg s
                      then s\<lparr>model_q := q',
                             model_k := momentum_update q' (model_k s) (momentum_beta ext),
                             optimizer := opt',
                             calls := calls s @ [Ev_cross_entropy_loss, Ev_zero_grad, Ev_backward,
                                                 Ev_optimizer_step,
                                                 Ev_momentum_update (momentum_beta ext),
                                                 Ev_queue_data, Ev_dequeue_data],
                             total_loss := total_loss s + loss * real (length data),
                             n_data := n_data s + length data,
                             queue := dequeue_data (queue_data (queue s) k) (dictionary_size cfg)\<rparr>
                      else s\<lparr>calls := calls s @ [Ev_queue_data, Ev_dequeue_data],
                             queue := dequeue_data (queue_data (queue s) k) (dictionary_size cfg)\<rparr>)"
    by blast
  let ?r = "s\<lparr>model_q := q',
               model_k := momentum_update q' (model_k s) (momentum_beta ext),
               optimizer := opt',
               calls := calls s @ [Ev_cross_entropy_loss, Ev_zero_grad, Ev_backward,
                                   Ev_optimizer_step,
                                   Ev_momentum_update (momentum_beta ext),
                                   Ev_queue_data, Ev_dequeue_data],
               total_loss := total_loss s + loss * real (length data),
               n_data := n_data s + length data,
               queue := dequeue_data (queue_data (queue s) k) (dictionary_size cfg)\<rparr>"
  let ?n = "s\<lparr>calls := calls s @ [Ev_queue_data, Ev_dequeue_data],
               queue := dequeue_data (queue_data (queue s) k) (dictionary_size cfg)\<rparr>"
  show ?thesis
  proof (cases "ready cfg s")
    case True
    with st have "train_step ext cfg temp s (data, p) = Inr ?r"
      by (simp only: if_True)
    with k cl o True show ?thesis
      by (intro exI [of _ ?r] exI [of _ k]) (simp add: new_calls_def)
  next
    case False
    with st have "train_step ext cfg temp s (data, p) = Inr ?n"
      by (simp only: if_False)
    with k False show ?thesis
      by (intro exI [of _ ?n] exI [of _ k]) (simp add: new_calls_def)
  qed
qed

theorem step_gating_witness:
  "net_ok stub_ext 1
   \<and> wf_tensor (queue stub_state)
   \<and> ncols (queue stub_state) = 1
   \<and> [2 :: real] \<noteq> []
   \<and> is_randperm (length [2 :: real]) [0]
   \<and> ready (stub_cfg 2) stub_state
   \<and> (\<exists>s' k. train_step stub_ext (stub_cfg 2) (7 / 100) stub_state ([2 :: real], [0]) = Inr s'
           \<and> key_batch stub_ext (model_k stub_state) [2 :: real] (length [2 :: real]) [0] = Inr k
           \<and> (Ev_cross_entropy_loss \<in> set (new_calls stub_state s') \<longleftrightarrow> ready (stub_cfg 2) stub_state)
           \<and> (Ev_optimizer_step \<in> set (new_calls stub_state s') \<longleftrightarrow> ready (stub_cfg 2) stub_state)
           \<and> (Ev_momentum_update (momentum_beta stub_ext) \<in> set (new_calls stub_state s')
                 \<longleftrightarrow> ready (stub_cfg 2) stub_state)
           \<and> (\<forall>b. Ev_momentum_update b \<in> set (new_calls stub_state s') \<longrightarrow> ready (stub_cfg 2) stub_state)
           \<and> (\<not> ready (stub_cfg 2) stub_state \<longrightarrow>
                 model_q s' = model_q stub_state \<and> model_k s' = model_k stub_state \<and> optimizer s' = optimizer stub_state
                 \<and> total_loss s' = total_loss stub_state \<and> n_data s' = n_data stub_state)
           \<and> (ready (stub_cfg 2) stub_state \<longrightarrow>
                 (\<exists>loss. contrastive_loss (Net_forward stub_ext (model_q stub_state) [2 :: real]) k (queue stub_state)
                            (length [2 :: real]) (7 / 100) = Inr loss
                        \<and> total_loss s' = total_loss stub_state + loss * real (length [2 :: real]))
                 \<and> n_data s' = n_data stub_state + length [2 :: real]
                 \<and> (optimizer s', model_q s')
                     = optimizer_step stub_ext (optimizer stub_state)
                         (loss_backward stub_ext (model_q stub_state) [2 :: real] k (queue stub_state) (7 / 100))
                         (model_q stub_state)
                 \<and> model_k s' = momentum_update (model_q s') (model_k stub_state) (momentum_beta stub_ext))
           \<and> Ev_queue_data \<in> set (new_calls stub_state s') \<and> Ev_dequeue_data \<in> set (new_calls stub_state s')
           \<and> queue s' = dequeue_data (queue_data (queue stub_state) k) (dictionary_size (stub_cfg 2)))"
proof -
  have h1: "net_ok stub_ext 1"
    by (simp add: net_ok_def stub_ext_def wf_tensor_def list_all_iff)
  have h2: "wf_tensor (queue stub_state)"
    by (simp add: stub_state_def wf_tensor_def)
  have h3: "ncols (queue stub_state) = 1"
    by (simp add: stub_state_def)
  have h4: "[2 :: real] \<noteq> []"
    by simp
  have h5: "is_randperm (length [2 :: real]) [0]"
    by (simp add: is_randperm_def)
  have h6: "ready (stub_cfg 2) stub_state"
    by (simp add: ready_def stub_cfg_def stub_state_def shape0_def)
  note c = step_gating [OF h1 h2 h3 h4 h5, of "stub_cfg 2" "7 / 100"]
  show ?thesis
    by (intro conjI h1 h2 h3 h4 h5 h6 c)
qed

section \<open>Order of the optimizer step and the momentum update\<close>

text \<open>
  C6. In every step that produces a loss (a step in which the dictionary is ready), the calls
  are made in the order: loss, \<^verbatim>\<open>zero_grad\<close>, \<^verbatim>\<open>backward\<close>, optimizer step, momentum update,
  enqueue, evict. So the momentum update comes after the optimizer step and never before
  it, and the key encoder is averaged with the parameters of the query encoder that the
  optimizer step has produced.
\<close>

theorem momentum_update_follows_optimizer_step:
  assumes "net_ok ext D"
    and "wf_tensor (queue s)"
    and "ncols (queue s) = D"
    and "data \<noteq> []"
    and "is_randperm (length data) p"
    and "ready cfg s"
  shows "\<exists>s' k. train_step ext cfg temp s (data, p) = Inr s'
           \<and> key_batch ext (model_k s) data (length data) p = Inr k
           \<and> new_calls s s'
               = [Ev_cross_entropy_loss, Ev_zero_grad, Ev_backward, Ev_optimizer_step,
                  Ev_momentum_update (momentum_beta ext), Ev_queue_data, Ev_dequeue_data]
           \<and> (\<forall>i j b. i < length (new_calls s s') \<and> j < length (new_calls s s')
                   \<and> new_calls s s' ! i = Ev_optimizer_step
                   \<and> new_calls s s' ! j = Ev_momentum_update b \<longrightarrow> i < j)
           \<and> (optimizer s', model_q s')
               = optimizer_step ext (optimizer s)
                   (loss_backward ext (model_q s) data k (queue s) temp) (model_q s)
           \<and> model_k s' = momentum_update (model_q s') (model_k s) (momentum_beta ext)"
proof -
  from train_step_result [OF assms(1-5), of temp cfg] assms(6) obtain k loss opt' q' where
    k: "key_batch ext (model_k s) data (length data) p = Inr k"
    and o: "optimizer_step ext (optimizer s)
              (loss_backward ext (model_q s) data k (queue s) temp) (model_q s) = (opt', q')"
    and st: "train_step ext cfg temp s (data, p)
               = Inr (s\<lparr>model_q := q',
                        model_k := momentum_update q' (model_k s) (momentum_beta ext),
                        optimizer := opt',
                        calls := calls s @ [Ev_cross_entropy_loss, Ev_zero_grad, Ev_backward,
                                            Ev_optimizer_step,
                                            Ev_momentum_update (momentum_beta ext),
                                            Ev_queue_data, Ev_dequeue_data],
                        total_loss := total_loss s + loss * real (length data),
                        n_data := n_data s + length data,
                        queue := dequeue_data (queue_data (queue s) k) (dictionary_size cfg)\<rparr>)"
    by (simp only: if_True) blast
  let ?r = "s\<lparr>model_q := q',
               model_k := momentum_update q' (model_k s) (momentum_beta ext),
               optimizer := opt',
               calls := calls s @ [Ev_cross_entropy_loss, Ev_zero_grad, Ev_backward,
                                   Ev_optimizer_step,
                                   Ev_momentum_update (momentum_beta ext),
                                   Ev_queue_data, Ev_dequeue_data],
               total_loss := total_loss s + loss * real (length data),
               n_data := n_data s + length data,
               queue := dequeue_data (queue_data (queue s) k) (dictionary_size cfg)\<rparr>"
  let ?l = "[Ev_cross_entropy_loss, Ev_zero_grad, Ev_backward, Ev_optimizer_step,
             Ev_momentum_update (momentum_beta ext), Ev_queue_data, Ev_dequeue_data]"
  have nc: "new_calls s ?r = ?l"
    by (simp add: new_calls_def)
  have ord: "i < j" if "i < length ?l" and "j < length ?l"
    and "?l ! i = Ev_optimizer_step" and "?l ! j = Ev_momentum_update b" for i j b
  proof -
    from that(1) have "i \<in> {0, 1, 2, 3, 4, 5, 6}" by auto
    with that(3) have "i = 3" by auto
    moreover from that(2) have "j \<in> {0, 1, 2, 3, 4, 5, 6}" by auto
    with that(4) have "j = 4" by auto
    ultimately show ?thesis by simp
  qed
  have c4: "\<forall>i j b. i < length (new_calls s ?r) \<and> j < length (new_calls s ?r)
          \<and> new_calls s ?r ! i = Ev_optimizer_step
          \<and> new_calls s ?r ! j = Ev_momentum_update b \<longrightarrow> i < j"
    unfolding nc using ord by blast
  have c5: "(optimizer ?r, model_q ?r)
              = optimizer_step ext (optimizer s)
                  (loss_backward ext (model_q s) data k (queue s) temp) (model_q s)"
    by (simp add: o)
  have c6: "model_k ?r = momentum_update (model_q ?r) (model_k s) (momentum_beta ext)"
    by simp
  show ?thesis
    by (intro exI [of _ ?r] exI [of _ k] conjI st k nc c4 c5 c6)
qed

theorem momentum_update_follows_optimizer_step_witness:
  "net_ok stub_ext 1
   \<and> wf_tensor (queue stub_state)
   \<and> ncols (queue stub_state) = 1
   \<and> [2 :: real] \<noteq> []
   \<and> is_randperm (length [2 :: real]) [0]
   \<and> ready (stub_cfg 2) stub_state
   \<and> (\<exists>s' k. train_step stub_ext (stub_cfg 2) (7 / 100) stub_state ([2 :: real], [0]) = Inr s'
           \<and> key_batch stub_ext (model_k stub_state) [2 :: real] (length [2 :: real]) [0] = Inr k
           \<and> new_calls stub_state s'
               = [Ev_cross_entropy_loss, Ev_zero_grad, Ev_backward, Ev_optimizer_step,
                  Ev_momentum_update (momentum_beta stub_ext), Ev_queue_data, Ev_dequeue_data]
           \<and> (\<forall>i j b. i < length (new_calls stub_state s') \<and> j < length (new_calls stub_state s')
                   \<and> new_calls stub_state s' ! i = Ev_optimizer_step
                   \<and> new_calls stub_state s' ! j = Ev_momentum_update b \<longrightarrow> i < j)
           \<and> (optimizer s', model_q s')
               = optimizer_step stub_ext (optimizer stub_state)
                   (loss_backward stub_ext (model_q stub_state) [2 :: real] k (queue stub_state) (7 / 100)) (model_q stub_state)
           \<and> model_k s' = momentum_update (model_q s') (model_k stub_state) (momentum_beta stub_ext))"
proof -
  have h1: "net_ok stub_ext 1"
    by (simp add: net_ok_def stub_ext_def wf_tensor_def list_all_iff)
  have h2: "wf_tensor (queue stub_state)"
    by (simp add: stub_state_def wf_tensor_def)
  have h3: "ncols (queue stub_state) = 1"
    by (simp add: stub_state_def)
  have h4: "[2 :: real] \<noteq> []"
    by simp
  have h5: "is_randperm (length [2 :: real]) [0]"
    by (simp add: is_randperm_def)
  have h6: "ready (stub_cfg 2) stub_state"
    by (simp add: ready_def stub_cfg_def stub_state_def shape0_def)
  note c = momentum_update_follows_optimizer_step [OF h1 h2 h3 h4 h5 h6, of "7 / 100"]
  show ?thesis
    by (intro conjI h1 h2 h3 h4 h5 h6 c)
qed

section \<open>The loop over the batches of an epoch\<close>

lemma train_loop_append:
  "train_loop ext cfg temp s (xs @ ys)
     = bind_err (train_loop ext cfg temp s xs) (\<lambda>s'. train_loop ext cfg temp s' ys)"
  by (induction xs arbitrary: s) (auto simp: bind_err_def split: sum.splits)

lemma train_run_Suc:
  assumes "n < length train_loader"
    and "train_run ext cfg temp w (take n train_loader) = Inr s"
  shows "train_run ext cfg temp w (take (Suc n) train_loader)
           = train_step ext cfg temp s (train_loader ! n)"
proof -
  have t: "take (Suc n) train_loader = take n train_loader @ [train_loader ! n]"
    using assms(1) by (rule take_Suc_conv_app_nth)
  from assms(2) obtain s0 where
    s0: "train_entry cfg w = Inr s0" "train_loop ext cfg temp s0 (take n train_loader) = Inr s"
    by (auto simp: train_run_def bind_err_def split: sum.splits)
  show ?thesis
    unfolding t train_run_def train_loop_append
    by (simp add: bind_err_def s0 split: sum.splits)
qed

lemma train_entry_value:
  assumes "0 \<le> features_dim cfg"
  shows "train_entry cfg w
           = Inr \<lparr>model_q = model_q w, model_k = model_k w, optimizer = optimizer w,
                  calls = calls w, total_loss = 0, n_data = 0,
                  queue = Tensor (nat (features_dim cfg)) []\<rparr>"
  using assms by (simp add: train_entry_def zeros_def bind_err_def)

lemma train_run_Nil:
  assumes "0 \<le> features_dim cfg"
  shows "train_run ext cfg temp w []
           = Inr \<lparr>model_q = model_q w, model_k = model_k w, optimizer = optimizer w,
                  calls = calls w, total_loss = 0, n_data = 0,
                  queue = Tensor (nat (features_dim cfg)) []\<rparr>"
  by (simp add: train_run_def train_entry_value [OF assms] bind_err_def)

lemma loader_ok_nth:
  assumes "loader_ok train_loader" and "n < length train_loader"
  shows "fst (train_loader ! n) \<noteq> []"
    and "is_randperm (length (fst (train_loader ! n))) (snd (train_loader ! n))"
  using assms by (auto simp: loader_ok_def list_all_length split_def)

lemma shape0_enqueue_evict:
  assumes "0 \<le> K"
  shows "shape0 (dequeue_data (queue_data data k) K)
           = min (nat K) (shape0 data + length (rows k))"
  using assms by (simp add: shape0_def rows_enqueue_evict)

text \<open>The state at the start of step \<open>n\<close> of an epoch exists and has a well-shaped queue.\<close>

lemma train_run_prefix:
  assumes "net_ok ext (nat (features_dim cfg))" and "0 \<le> features_dim cfg"
    and "loader_ok train_loader" and "n \<le> length train_loader"
  shows "\<exists>s. train_run ext cfg temp w (take n train_loader) = Inr s
           \<and> wf_tensor (queue s) \<and> ncols (queue s) = nat (features_dim cfg)"
  using assms(4)
proof (induction n)
  case 0
  then show ?case
    by (simp add: train_run_Nil [OF assms(2)] wf_tensor_def)
next
  case (Suc n)
  then have n: "n < length train_loader" by simp
  from Suc obtain s where
    s: "train_run ext cfg temp w (take n train_loader) = Inr s"
      "wf_tensor (queue s)" "ncols (queue s) = nat (features_dim cfg)"
    by auto
  obtain data p where dp: "train_loader ! n = (data, p)"
    by (cases "train_loader ! n")
  have ok: "data \<noteq> []" "is_randperm (length data) p"
    using loader_ok_nth [OF assms(3) n] dp by simp_all
  from train_step_result [OF assms(1) s(2,3) ok, of temp cfg] obtain k s' where
    k: "wf_tensor k" "ncols k = nat (features_dim cfg)"
    and st: "train_step ext cfg temp s (data, p) = Inr s'"
    and q: "queue s' = dequeue_data (queue_data (queue s) k) (dictionary_size cfg)"
    by (cases "ready cfg s") auto
  have "wf_tensor (queue s')"
    unfolding q using s(2) k(1) k(2) s(3) by (intro wf_enqueue_evict) simp_all
  moreover have "ncols (queue s') = nat (features_dim cfg)"
    unfolding q by (simp add: ncols_enqueue_evict s(3))
  moreover have "train_run ext cfg temp w (take (Suc n) train_loader) = Inr s'"
    using train_run_Suc [OF n s(1)] dp st by simp
  ultimately show ?case by blast
qed

section \<open>Readiness and the size of the negative set\<close>

text \<open>
  C10. Take an epoch on well-formed batches, with a capacity \<open>K \<ge> 0\<close>, and its step number
  \<open>n\<close>. Let \<open>s\<close> be the state at the start of the step and \<open>s'\<close> the state after it. The step
  computes a loss if and only if the queue of \<open>s\<close> (its length before this step's enqueue) has
  at least \<open>K\<close> entries, and then this queue, which is the negative set of the loss, has
  exactly \<open>K\<close> entries: the length of the queue never exceeds \<open>K\<close> at the start of a step, it
  is 0 at the start of the first step, and after the step it is the smaller of \<open>K\<close> and the
  old length plus the batch size. A step whose enqueue brings the queue to capacity computes
  no loss itself; the state it leaves is ready, so the first loss is computed in the step
  after it.
\<close>

theorem readiness_is_tested_before_enqueue:
  assumes "net_ok ext (nat (features_dim cfg))"
    and "0 \<le> features_dim cfg"
    and "0 \<le> dictionary_size cfg"
    and "loader_ok loader"
    and "n < length loader"
  shows "\<exists>s s'. train_run ext cfg temp w (take n loader) = Inr s
           \<and> train_step ext cfg temp s (loader ! n) = Inr s'
           \<and> train_run ext cfg temp w (take (Suc n) loader) = Inr s'
           \<and> (Ev_cross_entropy_loss \<in> set (new_calls s s')
                 \<longleftrightarrow> dictionary_size cfg \<le> int (shape0 (queue s)))
           \<and> (Ev_cross_entropy_loss \<in> set (new_calls s s')
                 \<longrightarrow> int (shape0 (queue s)) = dictionary_size cfg
                     \<and> (\<exists>k loss. contrastive_loss (Net_forward ext (model_q s) (fst (loader ! n)))
                                      k (queue s) (length (fst (loader ! n))) temp = Inr loss
                                  \<and> total_loss s'
                                      = total_loss s + loss * real (length (fst (loader ! n)))))
           \<and> int (shape0 (queue s)) \<le> dictionary_size cfg
           \<and> (n = 0 \<longrightarrow> shape0 (queue s) = 0)
           \<and> shape0 (queue s')
               = min (nat (dictionary_size cfg)) (shape0 (queue s) + length (fst (loader ! n)))
           \<and> (int (shape0 (queue s)) < dictionary_size cfg
                \<and> dictionary_size cfg \<le> int (shape0 (queue s) + length (fst (loader ! n)))
                \<longrightarrow> Ev_cross_entropy_loss \<notin> set (new_calls s s') \<and> ready cfg s')"
proof -
  let ?K = "dictionary_size cfg"
  have bound: "\<exists>s. train_run ext cfg temp w (take m loader) = Inr s
                 \<and> wf_tensor (queue s) \<and> ncols (queue s) = nat (features_dim cfg)
                 \<and> int (shape0 (queue s)) \<le> ?K \<and> (m = 0 \<longrightarrow> shape0 (queue s) = 0)"
    if "m \<le> length loader" for m
    using that
  proof (induction m)
    case 0
    then show ?case
      using assms(3) by (simp add: train_run_Nil [OF assms(2)] wf_tensor_def shape0_def)
  next
    case (Suc m)
    then have m: "m < length loader" by simp
    from Suc obtain s where
      s: "train_run ext cfg temp w (take m loader) = Inr s"
        "wf_tensor (queue s)" "ncols (queue s) = nat (features_dim cfg)"
      by auto
    obtain data p where dp: "loader ! m = (data, p)"
      by (cases "loader ! m")
    have ok: "data \<noteq> []" "is_randperm (length data) p"
      using loader_ok_nth [OF assms(4) m] dp by simp_all
    from train_step_result [OF assms(1) s(2,3) ok, of temp cfg] obtain k s' where
      st: "train_step ext cfg temp s (data, p) = Inr s'"
      and q: "queue s' = dequeue_data (queue_data (queue s) k) ?K"
      by (cases "ready cfg s") auto
    have run: "train_run ext cfg temp w (take (Suc m) loader) = Inr s'"
      using train_run_Suc [OF m s(1)] dp st by simp
    from train_run_prefix [OF assms(1,2,4), of "Suc m" temp w] Suc.prems run
    have "wf_tensor (queue s')" "ncols (queue s') = nat (features_dim cfg)"
      by auto
    moreover have "int (shape0 (queue s')) \<le> ?K"
      unfolding q using assms(3) by (simp add: shape0_enqueue_evict)
    ultimately show ?case
      using run by simp
  qed
  from bound [of n] assms(5) obtain s where
    s: "train_run ext cfg temp w (take n loader) = Inr s"
      "wf_tensor (queue s)" "ncols (queue s) = nat (features_dim cfg)"
      "int (shape0 (queue s)) \<le> ?K" "n = 0 \<longrightarrow> shape0 (queue s) = 0"
    by auto
  obtain data p where dp: "loader ! n = (data, p)"
    by (cases "loader ! n")
  have ok: "data \<noteq> []" "is_randperm (length data) p"
    using loader_ok_nth [OF assms(4,5)] dp by simp_all
  from train_step_result [OF assms(1) s(2,3) ok, of temp cfg] obtain k loss opt' q' where
    k: "length (rows k) = length data"
    and cl: "contrastive_loss (Net_forward ext (model_q s) data) k (queue s) (length data) temp
               = Inr loss"
    and st: "train_step ext cfg temp s (data, p)
               = Inr (if ready cfg s
                      then s\<lparr>model_q := q',
                             model_k := momentum_update q' (model_k s) (momentum_beta ext),
                             optimizer := opt',
                             calls := calls s @ [Ev_cross_entropy_loss, Ev_zero_grad, Ev_backward,
                                                 Ev_optimizer_step,
                                                 Ev_momentum_update (momentum_beta ext),
                                                 Ev_queue_data, Ev_dequeue_data],
                             total_loss := total_loss s + loss * real (length data),
                             n_data := n_data s + length data,
                             queue := dequeue_data (queue_data (queue s) k) ?K\<rparr>
                      else s\<lparr>calls := calls s @ [Ev_queue_data, Ev_dequeue_data],
                             queue := dequeue_data (queue_data (queue s) k) ?K\<rparr>)"
    by blast
  define s' where "s' = (if ready cfg s
                      then s\<lparr>model_q := q',
                             model_k := momentum_update q' (model_k s) (momentum_beta ext),
                             optimizer := opt',
                             calls := calls s @ [Ev_cross_entropy_loss, Ev_zero_grad, Ev_backward,
                                                 Ev_optimizer_step,
                                                 Ev_momentum_update (momentum_beta ext),
                                                 Ev_queue_data, Ev_dequeue_data],
                             total_loss := total_loss s + loss * real (length data),
                             n_data := n_data s + length data,
                             queue := dequeue_data (queue_data (queue s) k) ?K\<rparr>
                      else s\<lparr>calls := calls s @ [Ev_queue_data, Ev_dequeue_data],
                             queue := dequeue_data (queue_data (queue s) k) ?K\<rparr>)"
  have c2: "train_step ext cfg temp s (loader ! n) = Inr s'"
    using st by (simp add: dp s'_def)
  have c3: "train_run ext cfg temp w (take (Suc n) loader) = Inr s'"
    using train_run_Suc [OF assms(5) s(1)] c2 by simp
  have loss_iff: "Ev_cross_entropy_loss \<in> set (new_calls s s') \<longleftrightarrow> ready cfg s"
    by (simp add: s'_def new_calls_def)
  have c4: "Ev_cross_entropy_loss \<in> set (new_calls s s') \<longleftrightarrow> ?K \<le> int (shape0 (queue s))"
    using loss_iff by (simp add: ready_def)
  have tl: "ready cfg s \<Longrightarrow> total_loss s' = total_loss s + loss * real (length data)"
    by (simp add: s'_def)
  have c5: "Ev_cross_entropy_loss \<in> set (new_calls s s')
              \<longrightarrow> int (shape0 (queue s)) = ?K
                  \<and> (\<exists>k loss. contrastive_loss (Net_forward ext (model_q s) (fst (loader ! n)))
                                   k (queue s) (length (fst (loader ! n))) temp = Inr loss
                               \<and> total_loss s'
                                   = total_loss s + loss * real (length (fst (loader ! n))))"
    using c4 s(4) cl tl loss_iff by (auto simp: dp)
  have qs': "queue s' = dequeue_data (queue_data (queue s) k) ?K"
    by (simp add: s'_def)
  have c8: "shape0 (queue s') = min (nat ?K) (shape0 (queue s) + length (fst (loader ! n)))"
    unfolding qs' using assms(3) k by (simp add: shape0_enqueue_evict dp)
  have c9: "int (shape0 (queue s)) < ?K
              \<and> ?K \<le> int (shape0 (queue s) + length (fst (loader ! n)))
              \<longrightarrow> Ev_cross_entropy_loss \<notin> set (new_calls s s') \<and> ready cfg s'"
    using c4 c8 assms(3) by (auto simp: ready_def)
  show ?thesis
    by (intro exI [of _ s] exI [of _ s'] conjI s(1) c2 c3 c4 c5 s(4) s(5) c8 c9)
qed

theorem readiness_is_tested_before_enqueue_witness:
  "net_ok stub_ext (nat (features_dim (stub_cfg 2)))
   \<and> 0 \<le> features_dim (stub_cfg 2)
   \<and> 0 \<le> dictionary_size (stub_cfg 2)
   \<and> loader_ok [([1 :: real], [0 :: nat]), ([2], [0]), ([3], [0])]
   \<and> (2 :: nat) < length [([1 :: real], [0 :: nat]), ([2], [0]), ([3], [0])]
   \<and> (\<exists>s s'. train_run stub_ext (stub_cfg 2) (7 / 100) stub_world (take (2 :: nat) [([1 :: real], [0 :: nat]), ([2], [0]), ([3], [0])]) = Inr s
           \<and> train_step stub_ext (stub_cfg 2) (7 / 100) s ([([1 :: real], [0 :: nat]), ([2], [0]), ([3], [0])] ! (2 :: nat)) = Inr s'
           \<and> train_run stub_ext (stub_cfg 2) (7 / 100) stub_world (take (Suc (2 :: nat)) [([1 :: real], [0 :: nat]), ([2], [0]), ([3], [0])]) = Inr s'
           \<and> (Ev_cross_entropy_loss \<in> set (new_calls s s')
                 \<longleftrightarrow> dictionary_size (stub_cfg 2) \<le> int (shape0 (queue s)))
           \<and> (Ev_cross_entropy_loss \<in> set (new_calls s s')
                 \<longrightarrow> int (shape0 (queue s)) = dictionary_size (stub_cfg 2)
                     \<and> (\<exists>k loss. contrastive_loss (Net_forward stub_ext (model_q s) (fst ([([1 :: real], [0 :: nat]), ([2], [0]), ([3], [0])] ! (2 :: nat))))
                                      k (queue s) (length (fst ([([1 :: real], [0 :: nat]), ([2], [0]), ([3], [0])] ! (2 :: nat)))) (7 / 100) = Inr loss
                                  \<and> total_loss s'
                                      = total_loss s + loss * real (length (fst ([([1 :: real], [0 :: nat]), ([2], [0]), ([3], [0])] ! (2 :: nat))))))
           \<and> int (shape0 (queue s)) \<le> dictionary_size (stub_cfg 2)
           \<and> ((2 :: nat) = 0 \<longrightarrow> shape0 (queue s) = 0)
           \<and> shape0 (queue s')
               = min (nat (dictionary_size (stub_cfg 2))) (shape0 (queue s) + length (fst ([([1 :: real], [0 :: nat]), ([2], [0]), ([3], [0])] ! (2 :: nat))))
           \<and> (int (shape0 (queue s)) < dictionary_size (stub_cfg 2)
                \<and> dictionary_size (stub_cfg 2) \<le> int (shape0 (queue s) + length (fst ([([1 :: real], [0 :: nat]), ([2], [0]), ([3], [0])] ! (2 :: nat))))
                \<longrightarrow> Ev_cross_entropy_loss \<notin> set (new_calls s s') \<and> ready (stub_cfg 2) s'))"
proof -
  have h1: "net_ok stub_ext (nat (features_dim (stub_cfg 2)))"
    by (simp add: net_ok_def stub_ext_def stub_cfg_def wf_tensor_def list_all_iff)
  have h2: "0 \<le> features_dim (stub_cfg 2)"
    by (simp add: stub_cfg_def)
  have h3: "0 \<le> dictionary_size (stub_cfg 2)"
    by (simp add: stub_cfg_def)
  have h4: "loader_ok [([1 :: real], [0 :: nat]), ([2], [0]), ([3], [0])]"
    by (simp add: loader_ok_def is_randperm_def)
  have h5: "(2 :: nat) < length [([1 :: real], [0 :: nat]), ([2], [0]), ([3], [0])]"
    by simp
  note c = readiness_is_tested_before_enqueue [OF h1 h2 h3 h4 h5, of "7 / 100" stub_world]
  show ?thesis
    by (intro conjI h1 h2 h3 h4 h5 c)
qed

section \<open>An epoch without a ready step\<close>

lemma length_concat_take_Suc:
  "n < length xs \<Longrightarrow>
     length (concat (map fst (take (Suc n) xs)))
       = length (concat (map fst (take n xs))) + length (fst (xs ! n))"
  by (simp add: take_Suc_conv_app_nth)

lemma length_concat_take_le:
  "length (concat (map fst (take n xs))) \<le> length (concat (map fst xs))"
proof -
  have "concat (map fst xs) = concat (map fst (take n xs)) @ concat (map fst (drop n xs))"
    by (metis append_take_drop_id concat_append map_append)
  then show ?thesis by simp
qed

text \<open>
  C9. Take an epoch on well-formed batches. If at the start of none of its steps the
  dictionary is ready, the loop ends with \<^verbatim>\<open>n_data\<close> and \<^verbatim>\<open>total_loss\<close> still 0, and \<^verbatim>\<open>train\<close>
  raises \<^verbatim>\<open>ZeroDivisionError\<close> at its last line instead of returning a mean loss. This is
  so in particular when the capacity is at least the number of samples in the batches of
  the epoch: then no step is ready.
\<close>

theorem no_ready_step_division_by_zero:
  assumes "net_ok ext (nat (features_dim cfg))"
    and "0 \<le> features_dim cfg"
    and "loader_ok loader"
  shows "((\<forall>n < length loader. \<forall>s. train_run ext cfg temp w (take n loader) = Inr s
                \<longrightarrow> \<not> ready cfg s)
          \<longrightarrow> (\<exists>s. train_run ext cfg temp w loader = Inr s \<and> n_data s = 0 \<and> total_loss s = 0)
              \<and> train ext cfg temp w loader = Inl ZeroDivisionError)
         \<and> (int (length (concat (map fst loader))) \<le> dictionary_size cfg
              \<longrightarrow> (\<forall>n < length loader. \<forall>s. train_run ext cfg temp w (take n loader) = Inr s
                     \<longrightarrow> \<not> ready cfg s))"
proof (intro conjI impI)
  assume nr: "\<forall>n < length loader. \<forall>s. train_run ext cfg temp w (take n loader) = Inr s
                \<longrightarrow> \<not> ready cfg s"
  have zero: "\<exists>s. train_run ext cfg temp w (take m loader) = Inr s
                 \<and> n_data s = 0 \<and> total_loss s = 0"
    if "m \<le> length loader" for m
    using that
  proof (induction m)
    case 0
    then show ?case
      by (simp add: train_run_Nil [OF assms(2)])
  next
    case (Suc m)
    then have m: "m < length loader" by simp
    from Suc obtain s where
      s: "train_run ext cfg temp w (take m loader) = Inr s" "n_data s = 0" "total_loss s = 0"
      by auto
    from train_run_prefix [OF assms, of m temp w] m s(1)
    have wf: "wf_tensor (queue s)" "ncols (queue s) = nat (features_dim cfg)"
      by auto
    from nr m s(1) have notready: "\<not> ready cfg s"
      by blast
    obtain data p where dp: "loader ! m = (data, p)"
      by (cases "loader ! m")
    have ok: "data \<noteq> []" "is_randperm (length data) p"
      using loader_ok_nth [OF assms(3) m] dp by simp_all
    from train_step_result [OF assms(1) wf ok, of temp cfg] notready obtain k where
      st: "train_step ext cfg temp s (data, p)
             = Inr (s\<lparr>calls := calls s @ [Ev_queue_data, Ev_dequeue_data],
                      queue := dequeue_data (queue_data (queue s) k) (dictionary_size cfg)\<rparr>)"
      by auto
    have "train_run ext cfg temp w (take (Suc m) loader)
            = Inr (s\<lparr>calls := calls s @ [Ev_queue_data, Ev_dequeue_data],
                      queue := dequeue_data (queue_data (queue s) k) (dictionary_size cfg)\<rparr>)"
      using train_run_Suc [OF m s(1)] dp st by simp
    then show ?case
      using s(2,3) by simp
  qed
  from zero [of "length loader"] obtain s where
    s: "train_run ext cfg temp w loader = Inr s" "n_data s = 0" "total_loss s = 0"
    by auto
  then show "\<exists>s. train_run ext cfg temp w loader = Inr s \<and> n_data s = 0 \<and> total_loss s = 0"
    by blast
  from s show "train ext cfg temp w loader = Inl ZeroDivisionError"
    by (simp add: train_def bind_err_def)
next
  assume cap: "int (length (concat (map fst loader))) \<le> dictionary_size cfg"
  then have K: "0 \<le> dictionary_size cfg" by simp
  have len: "\<exists>s. train_run ext cfg temp w (take m loader) = Inr s
                \<and> shape0 (queue s) = length (concat (map fst (take m loader)))"
    if "m \<le> length loader" for m
    using that
  proof (induction m)
    case 0
    then show ?case
      by (simp add: train_run_Nil [OF assms(2)] shape0_def)
  next
    case (Suc m)
    then have m: "m < length loader" by simp
    from Suc obtain s where
      s: "train_run ext cfg temp w (take m loader) = Inr s"
        "shape0 (queue s) = length (concat (map fst (take m loader)))"
      by auto
    from train_run_prefix [OF assms, of m temp w] m s(1)
    have wf: "wf_tensor (queue s)" "ncols (queue s) = nat (features_dim cfg)"
      by auto
    obtain data p where dp: "loader ! m = (data, p)"
      by (cases "loader ! m")
    have ok: "data \<noteq> []" "is_randperm (length data) p"
      using loader_ok_nth [OF assms(3) m] dp by simp_all
    from train_step_result [OF assms(1) wf ok, of temp cfg] obtain k s' where
      k: "length (rows k) = length data"
      and st: "train_step ext cfg temp s (data, p) = Inr s'"
      and q: "queue s' = dequeue_data (queue_data (queue s) k) (dictionary_size cfg)"
      by (cases "ready cfg s") auto
    have run: "train_run ext cfg temp w (take (Suc m) loader) = Inr s'"
      using train_run_Suc [OF m s(1)] dp st by simp
    have sum: "length (concat (map fst (take (Suc m) loader)))
                 = shape0 (queue s) + length data"
      using length_concat_take_Suc [OF m] dp s(2) by simp
    have "int (length (concat (map fst (take (Suc m) loader)))) \<le> dictionary_size cfg"
      using length_concat_take_le [of "Suc m" loader] cap by linarith
    then have "shape0 (queue s') = length (concat (map fst (take (Suc m) loader)))"
      unfolding q sum using K k by (simp add: shape0_enqueue_evict)
    with run show ?case by blast
  qed
  show "\<forall>n < length loader. \<forall>s. train_run ext cfg temp w (take n loader) = Inr s
          \<longrightarrow> \<not> ready cfg s"
  proof (intro allI impI)
    fix n s
    assume n: "n < length loader"
      and s: "train_run ext cfg temp w (take n loader) = Inr s"
    from len [of n] n s have l: "shape0 (queue s) = length (concat (map fst (take n loader)))"
      by auto
    have "fst (loader ! n) \<noteq> []"
      by (rule loader_ok_nth(1) [OF assms(3) n])
    then have "length (concat (map fst (take n loader)))
                 < length (concat (map fst (take (Suc n) loader)))"
      using length_concat_take_Suc [OF n] by simp
    also have "\<dots> \<le> length (concat (map fst loader))"
      by (rule length_concat_take_le)
    finally have "int (shape0 (queue s)) < dictionary_size cfg"
      using l cap by linarith
    then show "\<not> ready cfg s"
      by (simp add: ready_def)
  qed
qed

theorem no_ready_step_division_by_zero_witness:
  "net_ok stub_ext (nat (features_dim (stub_cfg 2)))
   \<and> 0 \<le> features_dim (stub_cfg 2)
   \<and> loader_ok [([1 :: real], [0 :: nat]), ([2], [0])]
   \<and> int (length (concat (map fst [([1 :: real], [0 :: nat]), ([2], [0])]))) \<le> dictionary_size (stub_cfg 2)
   \<and> train stub_ext (stub_cfg 2) (7 / 100) stub_world [([1 :: real], [0 :: nat]), ([2], [0])] = Inl ZeroDivisionError"
proof -
  have h1: "net_ok stub_ext (nat (features_dim (stub_cfg 2)))"
    by (simp add: net_ok_def stub_ext_def stub_cfg_def wf_tensor_def list_all_iff)
  have h2: "0 \<le> features_dim (stub_cfg 2)"
    by (simp add: stub_cfg_def)
  have h3: "loader_ok [([1 :: real], [0 :: nat]), ([2], [0])]"
    by (simp add: loader_ok_def is_randperm_def)
  have h4: "int (length (concat (map fst [([1 :: real], [0 :: nat]), ([2], [0])]))) \<le> dictionary_size (stub_cfg 2)"
    by (simp add: stub_cfg_def)
  note c = no_ready_step_division_by_zero [OF h1 h2 h3, of "7 / 100" stub_world]
  from c h4 have "train stub_ext (stub_cfg 2) (7 / 100) stub_world [([1 :: real], [0 :: nat]), ([2], [0])] = Inl ZeroDivisionError"
    by blast
  with h1 h2 h3 h4 show ?thesis
    by (intro conjI)
qed

section \<open>Initialisation, the lifetime of the dictionary, and the configuration\<close>

lemma epochs_1_2: "map nat [1..2] = [1, 2]"
proof -
  have "[1..2] = 1 # [2..2]"
    by (subst upto.simps) simp
  also have "[2..2] = [2 :: int]"
    by (subst upto.simps) simp
  finally show ?thesis by simp
qed

lemma momentum_update_zero:
  assumes "length k0 = length q0"
  shows "momentum_update q0 k0 0 = q0"
proof -
  have "map (\<lambda>(k, q). 0 * k + (1 - 0) * q) (zip k0 q0) = map snd (zip k0 q0)"
    by (simp add: split_def)
  also have "\<dots> = q0"
    using assms by simp
  finally show ?thesis
    by (simp only: momentum_update_def)
qed

text \<open>
  C7. A momentum update with coefficient 0 makes the parameters of the key encoder equal
  to those of the query encoder, one by one, whatever the key parameters were before. The
  program makes exactly one such update when it starts (line 121), so training begins with
  the key encoder an exact copy of the query encoder.
\<close>

theorem key_encoder_starts_as_copy:
  assumes "length k0 = length q0"
  shows "momentum_update q0 k0 0 = q0
         \<and> (\<forall>i < length q0. momentum_update q0 k0 0 ! i = q0 ! i)
         \<and> model_q (main_init q0 k0 opt0) = q0
         \<and> model_k (main_init q0 k0 opt0) = model_q (main_init q0 k0 opt0)
         \<and> calls (main_init q0 k0 opt0) = [Ev_momentum_update 0]"
  using momentum_update_zero [OF assms] by (simp add: main_init_def)

theorem key_encoder_starts_as_copy_witness:
  "length [5, 7 :: real] = length [1, 2 :: real]
   \<and> momentum_update [1, 2] [5, 7] 0 = [1, 2]
   \<and> model_k (main_init [1, 2] [5, 7] ()) = model_q (main_init [1, 2] [5, 7] ())
   \<and> calls (main_init [1, 2] [5, 7] ()) = [Ev_momentum_update 0]"
proof -
  have h: "length [5, 7 :: real] = length [1, 2 :: real]" by simp
  from key_encoder_starts_as_copy [OF h, of "()"] h show ?thesis by blast
qed

text \<open>
  C5, as the code has it. On three batches of one image and with capacity 2, the first
  epoch ends with two entries in the dictionary and \<^verbatim>\<open>train\<close> returns; the second call of
  \<^verbatim>\<open>train\<close>, on the encoders and the optimizer that the first call left, starts with an empty
  dictionary. In a run of two epochs the log shows it: the first two steps of the second
  epoch compute no loss.
\<close>

theorem dictionary_reset_counterexample:
  "map_sum id (shape0 \<circ> queue)
     (train_run stub_ext (stub_cfg 2) (7 / 100) stub_world
        [([1], [0]), ([2], [0]), ([3], [0])]) = Inr 2
   \<and> \<not> isl (train stub_ext (stub_cfg 2) (7 / 100) stub_world
              [([1], [0]), ([2], [0]), ([3], [0])])
   \<and> map_sum id (shape0 \<circ> queue)
       (bind_err (train stub_ext (stub_cfg 2) (7 / 100) stub_world
                    [([1], [0]), ([2], [0]), ([3], [0])])
                 (train_entry (stub_cfg 2) \<circ> snd)) = Inr 0
   \<and> map_sum id (calls \<circ> snd)
       (main stub_ext (stub_cfg 2) (stub_loader [([1], [0]), ([2], [0]), ([3], [0])]) [1] [5] ())
       = Inr [Ev_momentum_update 0,
              Ev_queue_data, Ev_dequeue_data,
              Ev_queue_data, Ev_dequeue_data,
              Ev_cross_entropy_loss, Ev_zero_grad, Ev_backward, Ev_optimizer_step,
              Ev_momentum_update (1 / 2), Ev_queue_data, Ev_dequeue_data,
              Ev_queue_data, Ev_dequeue_data,
              Ev_queue_data, Ev_dequeue_data,
              Ev_cross_entropy_loss, Ev_zero_grad, Ev_backward, Ev_optimizer_step,
              Ev_momentum_update (1 / 2), Ev_queue_data, Ev_dequeue_data]"
  by (simp add: main_def stub_loader_def epochs_1_2 train_run_def train_entry_def zeros_def train_def world_of_def stub_world_def
        main_init_def train_step_def key_batch_def get_shuffle_idx_def index_select_def
        index_rows_def ready_branch_def contrastive_loss_def logits_of_def view_N_1_x_def
        view_N_x_1_def view_N_1_def bmm_def mm_def matmul_def tensor_t_def cat_last_def
        div_scalar_def cross_entropy_loss_def queue_data_def dequeue_data_def
        momentum_update_def stub_ext_def stub_cfg_def bind_err_def shape0_def Let_def)

text \<open>
  C5, amended. The dictionary persists for one epoch, that is, for one call of \<^verbatim>\<open>train\<close>:
  every step that completes builds the new dictionary from the old one by enqueueing the
  key batch and evicting to capacity, and nothing resets it between two steps. It is a
  local variable of \<^verbatim>\<open>train\<close>: every epoch starts with an empty dictionary, whatever the
  epochs before it have left.
\<close>

theorem dictionary_lives_for_one_epoch:
  fixes ext :: "('x, 'o) collab"
  assumes "0 \<le> features_dim cfg"
  shows "(\<exists>s0. train_entry cfg w = Inr s0 \<and> queue s0 = Tensor (nat (features_dim cfg)) []
               \<and> shape0 (queue s0) = 0)
         \<and> (\<forall>s s' data p. train_step ext cfg temp s (data, p) = Inr s' \<longrightarrow>
               (\<exists>k. key_batch ext (model_k s) data (length data) p = Inr k
                    \<and> queue s' = dequeue_data (queue_data (queue s) k) (dictionary_size cfg)))"
proof (intro conjI allI impI)
  show "\<exists>s0. train_entry cfg w = Inr s0 \<and> queue s0 = Tensor (nat (features_dim cfg)) []
               \<and> shape0 (queue s0) = 0"
    by (simp add: train_entry_value [OF assms] shape0_def)
next
  fix s s' :: "'o train_state" and data :: "'x list" and p
  assume st: "train_step ext cfg temp s (data, p) = Inr s'"
  then obtain k where k: "key_batch ext (model_k s) data (length data) p = Inr k"
    by (cases "key_batch ext (model_k s) data (length data) p")
       (simp_all add: train_step_def bind_err_def)
  have rb: "queue r = queue s"
    if "ready_branch ext temp s data (Net_forward ext (model_q s) data) k (length data) = Inr r"
    for r
    using that
    by (auto simp: ready_branch_def bind_err_def Let_def split: sum.splits prod.splits if_splits)
  from st k rb have "queue s' = dequeue_data (queue_data (queue s) k) (dictionary_size cfg)"
    by (auto simp: train_step_def bind_err_def Let_def split: sum.splits if_splits)
  with k show "\<exists>k. key_batch ext (model_k s) data (length data) p = Inr k
                 \<and> queue s' = dequeue_data (queue_data (queue s) k) (dictionary_size cfg)"
    by blast
qed

theorem dictionary_lives_for_one_epoch_witness:
  "0 \<le> features_dim (stub_cfg 2)
   \<and> (\<exists>s'. train_step stub_ext (stub_cfg 2) (7 / 100) stub_state ([2], [0]) = Inr s'
            \<and> (\<exists>k. key_batch stub_ext (model_k stub_state) [2] (length [2 :: real]) [0] = Inr k
                    \<and> queue s' = dequeue_data (queue_data (queue stub_state) k)
                                    (dictionary_size (stub_cfg 2))))
   \<and> (\<exists>s0. train_entry (stub_cfg 2) stub_world = Inr s0 \<and> shape0 (queue s0) = 0)"
proof -
  have h: "0 \<le> features_dim (stub_cfg 2)"
    by (simp add: stub_cfg_def)
  note c = dictionary_lives_for_one_epoch [OF h, of _ stub_ext "7 / 100"]
  have "isl (train_step stub_ext (stub_cfg 2) (7 / 100) stub_state ([2], [0])) = False"
    by (simp add: stub_state_def train_step_def key_batch_def get_shuffle_idx_def index_select_def
        index_rows_def ready_branch_def contrastive_loss_def logits_of_def view_N_1_x_def
        view_N_x_1_def view_N_1_def bmm_def mm_def matmul_def tensor_t_def cat_last_def
        div_scalar_def cross_entropy_loss_def queue_data_def dequeue_data_def
        momentum_update_def stub_ext_def stub_cfg_def bind_err_def shape0_def Let_def)
  then obtain s' where
    st: "train_step stub_ext (stub_cfg 2) (7 / 100) stub_state ([2], [0]) = Inr s'"
    by (cases "train_step stub_ext (stub_cfg 2) (7 / 100) stub_state ([2], [0])") simp_all
  from c [of stub_world] st
  have "\<exists>k. key_batch stub_ext (model_k stub_state) [2] (length [2 :: real]) [0] = Inr k
            \<and> queue s' = dequeue_data (queue_data (queue stub_state) k)
                            (dictionary_size (stub_cfg 2))"
    by blast
  moreover from c [of stub_world]
  have "\<exists>s0. train_entry (stub_cfg 2) stub_world = Inr s0 \<and> shape0 (queue s0) = 0"
    by blast
  ultimately show ?thesis
    using h st by blast
qed

text \<open>
  C8, as the code has it. A run configured with dictionary size 0 is not rejected: both of
  its epochs run, and every step computes a loss. A call of \<^verbatim>\<open>train\<close> with the temperature
  \<open>-1\<close> and the dictionary size \<open>-3\<close> returns as well.
\<close>

theorem configuration_not_rejected_counterexample:
  "dictionary_size (stub_cfg 0) \<le> 0
   \<and> map_sum id (calls \<circ> snd)
       (main stub_ext (stub_cfg 0) (stub_loader [([1], [0])]) [1] [5] ())
       = Inr [Ev_momentum_update 0,
              Ev_cross_entropy_loss, Ev_zero_grad, Ev_backward, Ev_optimizer_step,
              Ev_momentum_update (1 / 2), Ev_queue_data, Ev_dequeue_data,
              Ev_cross_entropy_loss, Ev_zero_grad, Ev_backward, Ev_optimizer_step,
              Ev_momentum_update (1 / 2), Ev_queue_data, Ev_dequeue_data]
   \<and> \<not> isl (train stub_ext (stub_cfg (- 3)) (- 1) stub_world [([1], [0])])"
  by (simp add: main_def stub_loader_def epochs_1_2 train_run_def train_entry_def zeros_def train_def world_of_def stub_world_def
        main_init_def train_step_def key_batch_def get_shuffle_idx_def index_select_def
        index_rows_def ready_branch_def contrastive_loss_def logits_of_def view_N_1_x_def
        view_N_x_1_def view_N_1_def bmm_def mm_def matmul_def tensor_t_def cat_last_def
        div_scalar_def cross_entropy_loss_def queue_data_def dequeue_data_def
        momentum_update_def stub_ext_def stub_cfg_def bind_err_def shape0_def Let_def)

text \<open>
  C8, amended. Neither the temperature nor the capacity is validated. Every integer is
  accepted as dictionary size, and for a dictionary size that is not positive the
  readiness test holds already for the empty dictionary: the first step of every epoch (on
  a well-formed batch) runs and computes a loss. This is so for every value of the
  temperature, which is no option of the command line (the program always calls \<^verbatim>\<open>train\<close>
  with its default 0.07) and which \<^verbatim>\<open>train\<close> does not check.
\<close>

theorem nonpositive_capacity_is_accepted:
  assumes "net_ok ext (nat (features_dim cfg))" and "0 \<le> features_dim cfg"
    and "data \<noteq> []" and "is_randperm (length data) p"
    and "dictionary_size cfg \<le> 0"
  shows "\<exists>s0 s'. train_entry cfg w = Inr s0
           \<and> train_step ext cfg temp s0 (data, p) = Inr s'
           \<and> Ev_cross_entropy_loss \<in> set (new_calls s0 s')"
proof -
  let ?s0 = "\<lparr>model_q = model_q w, model_k = model_k w, optimizer = optimizer w,
              calls = calls w, total_loss = 0, n_data = 0,
              queue = Tensor (nat (features_dim cfg)) []\<rparr>"
  have e: "train_entry cfg w = Inr ?s0"
    by (rule train_entry_value [OF assms(2)])
  have wf: "wf_tensor (queue ?s0)" "ncols (queue ?s0) = nat (features_dim cfg)"
    by (simp_all add: wf_tensor_def)
  have r: "ready cfg ?s0"
    using assms(5) by (simp add: ready_def shape0_def)
  from train_step_result [OF assms(1) wf assms(3,4), of temp cfg] r obtain s' where
    st: "train_step ext cfg temp ?s0 (data, p) = Inr s'"
    and c: "calls s' = calls ?s0 @ [Ev_cross_entropy_loss, Ev_zero_grad, Ev_backward,
                                    Ev_optimizer_step, Ev_momentum_update (momentum_beta ext),
                                    Ev_queue_data, Ev_dequeue_data]"
    by auto
  have "Ev_cross_entropy_loss \<in> set (new_calls ?s0 s')"
    unfolding new_calls_def c by simp
  with e st show ?thesis by blast
qed

theorem nonpositive_capacity_is_accepted_witness:
  "net_ok stub_ext (nat (features_dim (stub_cfg (- 3)))) \<and> 0 \<le> features_dim (stub_cfg (- 3))
   \<and> [2 :: real] \<noteq> [] \<and> is_randperm (length [2 :: real]) [0]
   \<and> dictionary_size (stub_cfg (- 3)) \<le> 0
   \<and> (\<exists>s0 s'. train_entry (stub_cfg (- 3)) stub_world = Inr s0
           \<and> train_step stub_ext (stub_cfg (- 3)) (- 1) s0 ([2 :: real], [0]) = Inr s'
           \<and> Ev_cross_entropy_loss \<in> set (new_calls s0 s'))"
proof -
  have h1: "net_ok stub_ext (nat (features_dim (stub_cfg (- 3))))"
    by (simp add: net_ok_def stub_ext_def stub_cfg_def wf_tensor_def list_all_iff)
  have h2: "0 \<le> features_dim (stub_cfg (- 3))"
    by (simp add: stub_cfg_def)
  have h3: "[2 :: real] \<noteq> []"
    by simp
  have h4: "is_randperm (length [2 :: real]) [0]"
    by (simp add: is_randperm_def)
  have h5: "dictionary_size (stub_cfg (- 3)) \<le> 0"
    by (simp add: stub_cfg_def)
  note c = nonpositive_capacity_is_accepted [OF h1 h2 h3 h4 h5, of stub_world "- 1"]
  show ?thesis
    by (intro conjI h1 h2 h3 h4 h5 c)
qed

end
